theory Spec2Isabelle
  imports Main "HOL-Library.Word"
begin

unbundle bit_operations_syntax

section \<open>JavaScript strings\<close>

text \<open>
  A JavaScript string is modelled by the list of its UTF-16 code units, for code units
  below 256 (type \<open>char\<close>): on these a code unit is a code point, and the character
  classes and the case mapping below are the ones of ECMAScript restricted to that range.
\<close>

definition code :: "char \<Rightarrow> nat" where
  "code c = of_char c"

definition BACKSLASH :: char where
  "BACKSLASH = CHR 0x5C"

text \<open>The regular expression class \<open>\s\<close>: tab, line feed, vertical tab, form feed,
  carriage return, space and the no-break space.\<close>

definition is_space :: "char \<Rightarrow> bool" where
  "is_space c = (code c \<in> {9, 10, 11, 12, 13, 32, 160})"

text \<open>The class \<open>\x00-\x1f\<close>.\<close>

definition is_control :: "char \<Rightarrow> bool" where
  "is_control c = (code c < 32)"

definition is_upper :: "char \<Rightarrow> bool" where
  "is_upper c = (65 \<le> code c \<and> code c \<le> 90)"

definition is_lower :: "char \<Rightarrow> bool" where
  "is_lower c = (97 \<le> code c \<and> code c \<le> 122)"

definition is_digit :: "char \<Rightarrow> bool" where
  "is_digit c = (48 \<le> code c \<and> code c \<le> 57)"

definition is_alpha :: "char \<Rightarrow> bool" where
  "is_alpha c = (is_upper c \<or> is_lower c)"

text \<open>The class \<open>\w\<close>: letters, digits and the underscore.\<close>

definition is_word :: "char \<Rightarrow> bool" where
  "is_word c = (is_alpha c \<or> is_digit c \<or> c = CHR ''_'')"

text \<open>\<open>String.prototype.toLowerCase\<close>: \<open>A-Z\<close> and the upper-case letters of the
  Latin-1 supplement (\<open>0xC0-0xDE\<close> without the multiplication sign \<open>0xD7\<close>) move up by 32.\<close>

definition toLowerCase_char :: "char \<Rightarrow> char" where
  "toLowerCase_char c =
     (if is_upper c \<or> (192 \<le> code c \<and> code c \<le> 222 \<and> code c \<noteq> 215)
      then char_of (code c + 32) else c)"

definition toLowerCase :: "string \<Rightarrow> string" where
  "toLowerCase s = map toLowerCase_char s"

definition startsWith :: "string \<Rightarrow> string \<Rightarrow> bool" where
  "startsWith s p = (take (length p) s = p)"

text \<open>\<open>s.replace(/[...]/g, r)\<close> for a one-character class and a one-character replacement.\<close>

definition replace_class :: "(char \<Rightarrow> bool) \<Rightarrow> char \<Rightarrow> string \<Rightarrow> string" where
  "replace_class cls r s = map (\<lambda>c. if cls c then r else c) s"

text \<open>\<open>s.replace(/[...]+/g, "")\<close>: every character of the class is deleted.\<close>

definition remove_class :: "(char \<Rightarrow> bool) \<Rightarrow> string \<Rightarrow> string" where
  "remove_class cls s = filter (\<lambda>c. \<not> cls c) s"

text \<open>\<open>s.replace(/^[...]+|[...]+$/g, "")\<close>: the longest run of the class at the start
  and the longest run at the end are deleted.\<close>

definition trim_class :: "(char \<Rightarrow> bool) \<Rightarrow> string \<Rightarrow> string" where
  "trim_class cls s = rev (dropWhile cls (rev (dropWhile cls s)))"

section \<open>Filename sanitizer\<close>

definition is_separator :: "char \<Rightarrow> bool" where
  "is_separator c = (c = CHR ''/'' \<or> c = BACKSLASH)"

text \<open>The class \<open>[<>:"|?*\x00-\x1f]\<close>.\<close>

definition is_problematic :: "char \<Rightarrow> bool" where
  "is_problematic c = (c \<in> set ''<>:|?*'' \<or> code c = 34 \<or> is_control c)"

definition is_space_or_dot :: "char \<Rightarrow> bool" where
  "is_space_or_dot c = (is_space c \<or> c = CHR ''.'')"

definition sanitizeFilename :: "string \<Rightarrow> string" where
  "sanitizeFilename filename =
     (let sanitized = replace_class is_separator CHR ''-'' filename;
          sanitized = replace_class is_problematic CHR ''-'' sanitized;
          sanitized = trim_class is_space_or_dot sanitized;
          sanitized = (if length sanitized > 200 then take 200 sanitized else sanitized);
          sanitized = (if sanitized = [] then ''image'' else sanitized)
      in sanitized)"

section \<open>Size normalizer\<close>

text \<open>
  \<open>aspectRatioMap\<close> is an object literal, and \<open>aspectRatioMap[key]\<close> is an ordinary
  property read: a key that is not an own property is looked up on \<open>Object.prototype\<close>.
  The value read is therefore a string of the table, a member of \<open>Object.prototype\<close>
  (a function, or for \<open>__proto__\<close> the prototype object itself), or \<open>undefined\<close>.
\<close>

datatype js_value = JString string | JPrototypeMember string

definition truthy :: "js_value \<Rightarrow> bool" where
  "truthy v = (case v of JString s \<Rightarrow> s \<noteq> [] | JPrototypeMember k \<Rightarrow> True)"

definition aspectRatioEntries :: "(string \<times> string) list" where
  "aspectRatioEntries =
     [(''1:1'', ''1024x1024''),
      (''square'', ''1024x1024''),
      (''16:9'', ''1536x1024''),
      (''landscape'', ''1536x1024''),
      (''9:16'', ''1024x1536''),
      (''portrait'', ''1024x1536''),
      (''3:2'', ''1536x1024''),
      (''2:3'', ''1024x1536''),
      (''4:3'', ''1024x1024''),
      (''3:4'', ''1024x1024'')]"

definition Object_prototype_keys :: "string list" where
  "Object_prototype_keys =
     [''constructor'', ''__defineGetter__'', ''__defineSetter__'', ''hasOwnProperty'',
      ''__lookupGetter__'', ''__lookupSetter__'', ''isPrototypeOf'', ''propertyIsEnumerable'',
      ''toString'', ''valueOf'', ''__proto__'', ''toLocaleString'']"

definition aspectRatioMap :: "string \<Rightarrow> js_value option" where
  "aspectRatioMap key =
     (case map_of aspectRatioEntries key of
        Some v \<Rightarrow> Some (JString v)
      | None \<Rightarrow> if key \<in> set Object_prototype_keys then Some (JPrototypeMember key) else None)"

definition validSizes :: "string list" where
  "validSizes = [''1024x1024'', ''1536x1024'', ''1024x1536'', ''auto'']"

definition parseSize :: "string \<Rightarrow> js_value" where
  "parseSize input =
     (if input \<in> set validSizes then JString input
      else
        let normalizedInput = remove_class is_space (toLowerCase input) in
        case aspectRatioMap normalizedInput of
          Some v \<Rightarrow> if truthy v then v else JString input
        | None \<Rightarrow> JString input)"

section \<open>Library functions the handlers call\<close>

text \<open>
  The handlers call into the JavaScript runtime (\<open>String\<close>, \<open>Buffer\<close>, the \<open>path\<close> module).
  These functions are not part of the repository; each is written here as the runtime
  documents and implements it, for a POSIX host (\<open>path\<close> is \<open>path.posix\<close>).
\<close>

subsection \<open>Strings and numbers\<close>

text \<open>\<open>s.split(sep)\<close> for a one-character separator: never empty, \<open>"".split(sep)\<close> is \<open>[""]\<close>.\<close>

fun split_on :: "char \<Rightarrow> string \<Rightarrow> string list" where
  "split_on sep [] = [[]]"
| "split_on sep (c # cs) =
     (if c = sep then [] # split_on sep cs
      else (case split_on sep cs of
              [] \<Rightarrow> [[c]]
            | x # xs \<Rightarrow> (c # x) # xs))"

text \<open>\<open>parts.join(sep)\<close>.\<close>

fun join_with :: "string \<Rightarrow> string list \<Rightarrow> string" where
  "join_with sep [] = []"
| "join_with sep [x] = x"
| "join_with sep (x # y # ys) = x @ sep @ join_with sep (y # ys)"

definition digit_char :: "nat \<Rightarrow> char" where
  "digit_char d = ''0123456789'' ! d"

text \<open>The decimal numeral of a natural number, as a template literal prints it.\<close>

fun show_nat :: "nat \<Rightarrow> string" where
  "show_nat k = (if k < 10 then [digit_char k] else show_nat (k div 10) @ [digit_char (k mod 10)])"

declare show_nat.simps [simp del]

subsection \<open>The path module\<close>

text \<open>
  \<open>normalizeString\<close> walks the segments between slashes: empty segments and \<open>.\<close> are
  dropped, \<open>..\<close> removes the segment before it unless there is none or it is \<open>..\<close> itself,
  in which case it is kept only when the path may climb above its start.
\<close>

fun normalize_segments :: "bool \<Rightarrow> string list \<Rightarrow> string list \<Rightarrow> string list" where
  "normalize_segments allowAboveRoot res [] = res"
| "normalize_segments allowAboveRoot res (seg # segs) =
     (if seg = [] \<or> seg = ''.'' then normalize_segments allowAboveRoot res segs
      else if seg = ''..'' then
        (if res \<noteq> [] \<and> last res \<noteq> ''..'' then normalize_segments allowAboveRoot (butlast res) segs
         else if allowAboveRoot then normalize_segments allowAboveRoot (res @ [''..'']) segs
         else normalize_segments allowAboveRoot res segs)
      else normalize_segments allowAboveRoot (res @ [seg]) segs)"

definition normalizeString :: "string \<Rightarrow> bool \<Rightarrow> string" where
  "normalizeString p allowAboveRoot =
     join_with ''/'' (normalize_segments allowAboveRoot [] (split_on CHR ''/'' p))"

definition path_normalize :: "string \<Rightarrow> string" where
  "path_normalize p =
     (if p = [] then ''.''
      else
        let isAbsolute = (hd p = CHR ''/'');
            trailingSeparator = (last p = CHR ''/'');
            q = normalizeString p (\<not> isAbsolute)
        in if q = [] then (if isAbsolute then ''/'' else if trailingSeparator then ''./'' else ''.'')
           else
             let q = (if trailingSeparator then q @ ''/'' else q)
             in if isAbsolute then CHR ''/'' # q else q)"

definition path_join :: "string list \<Rightarrow> string" where
  "path_join args =
     (let parts = filter (\<lambda>a. a \<noteq> []) args
      in if parts = [] then ''.'' else path_normalize (join_with ''/'' parts))"

record parsed_path =
  path_root :: string
  path_dir :: string
  path_base :: string
  path_ext :: string
  path_name :: string

definition is_slash :: "char \<Rightarrow> bool" where
  "is_slash c = (c = CHR ''/'')"

text \<open>The position of the last dot of a name, if it has one.\<close>

definition last_dot :: "string \<Rightarrow> nat option" where
  "last_dot b =
     (if CHR ''.'' \<in> set b then Some (length b - 1 - length (takeWhile (\<lambda>c. c \<noteq> CHR ''.'') (rev b)))
      else None)"

text \<open>
  \<open>path.parse\<close> scans the path from its end: trailing slashes are skipped, the base is
  what stands before them up to the slash before it, and the directory is what stands before
  that slash (\<open>/\<close> for an absolute path with no other slash). The extension starts at the
  last dot of the base, unless the base has no dot, starts with its only dot, or is \<open>..\<close>.
  The scan never visits the leading slash of an absolute path, and \<open>startPart\<close> stays 0
  when no other slash is met; the test for \<open>..\<close> compares positions with \<open>startPart\<close>, so it
  does not recognise \<open>..\<close> directly under the root.
\<close>

definition path_parse :: "string \<Rightarrow> parsed_path" where
  "path_parse p =
     (if p = [] then \<lparr>path_root = [], path_dir = [], path_base = [], path_ext = [], path_name = []\<rparr>
      else
        let isAbsolute = (hd p = CHR ''/'');
            start = (if isAbsolute then 1 else 0);
            trimmed = rev (dropWhile is_slash (rev (drop start p)));
            b = rev (takeWhile (\<lambda>c. \<not> is_slash c) (rev trimmed));
            startPart = (if length b = length trimmed then 0 else start + length trimmed - length b);
            noExt = (case last_dot b of
                       None \<Rightarrow> True
                     | Some k \<Rightarrow> k = 0 \<or> (b = ''..'' \<and> \<not> (isAbsolute \<and> startPart = 0)));
            k = (case last_dot b of None \<Rightarrow> 0 | Some k \<Rightarrow> k)
        in \<lparr>path_root = (if isAbsolute then ''/'' else []),
            path_dir = (if startPart > 0 then take (startPart - 1) p
                        else if isAbsolute then ''/'' else []),
            path_base = b,
            path_ext = (if noExt then [] else drop k b),
            path_name = (if noExt then b else take k b)\<rparr>)"

subsection \<open>Buffers and base64\<close>

type_synonym byte = "8 word"

definition base64_alphabet :: string where
  "base64_alphabet = ''ABCDEFGHIJKLMNOPQRSTUVWXYZabcdefghijklmnopqrstuvwxyz0123456789+/''"

definition base64_char :: "byte \<Rightarrow> char" where
  "base64_char s = base64_alphabet ! unat s"

text \<open>The four 6-bit values of a group of three bytes.\<close>

definition sextet1 :: "byte \<Rightarrow> byte" where
  "sextet1 a = drop_bit 2 a"

definition sextet2 :: "byte \<Rightarrow> byte \<Rightarrow> byte" where
  "sextet2 a b = push_bit 4 (a AND 3) OR drop_bit 4 b"

definition sextet3 :: "byte \<Rightarrow> byte \<Rightarrow> byte" where
  "sextet3 b c = push_bit 2 (b AND 15) OR drop_bit 6 c"

definition sextet4 :: "byte \<Rightarrow> byte" where
  "sextet4 c = c AND 63"

text \<open>\<open>buf.toString("base64")\<close>: three bytes give four characters; a remainder of one
  or two bytes is completed with zero bits and padded with \<open>=\<close>.\<close>

fun base64_encode :: "byte list \<Rightarrow> string" where
  "base64_encode (a # b # c # rest) =
     [base64_char (sextet1 a), base64_char (sextet2 a b),
      base64_char (sextet3 b c), base64_char (sextet4 c)] @ base64_encode rest"
| "base64_encode [a, b] =
     [base64_char (sextet1 a), base64_char (sextet2 a b), base64_char (sextet3 b 0), CHR ''='']"
| "base64_encode [a] =
     [base64_char (sextet1 a), base64_char (sextet2 a 0), CHR ''='', CHR ''='']"
| "base64_encode [] = []"

text \<open>The value of a base64 character; the decoder also accepts the URL-safe
  \<open>-\<close> and \<open>_\<close>.\<close>

definition unbase64 :: "char \<Rightarrow> byte option" where
  "unbase64 c =
     (if is_upper c then Some (of_nat (code c - 65))
      else if is_lower c then Some (of_nat (code c - 71))
      else if is_digit c then Some (of_nat (code c + 4))
      else if c = CHR ''+'' \<or> c = CHR ''-'' then Some 62
      else if c = CHR ''/'' \<or> c = CHR ''_'' then Some 63
      else None)"

text \<open>The bytes that two neighbouring 6-bit values give.\<close>

definition octet1 :: "byte \<Rightarrow> byte \<Rightarrow> byte" where
  "octet1 s t = push_bit 2 s OR drop_bit 4 t"

definition octet2 :: "byte \<Rightarrow> byte \<Rightarrow> byte" where
  "octet2 t u = push_bit 4 t OR drop_bit 2 u"

definition octet3 :: "byte \<Rightarrow> byte \<Rightarrow> byte" where
  "octet3 u v = push_bit 6 u OR v"

fun decode_sextets :: "byte list \<Rightarrow> byte list" where
  "decode_sextets (s # t # u # v # rest) =
     [octet1 s t, octet2 t u, octet3 u v] @ decode_sextets rest"
| "decode_sextets [s, t, u] = [octet1 s t, octet2 t u]"
| "decode_sextets [s, t] = [octet1 s t]"
| "decode_sextets [s] = []"
| "decode_sextets [] = []"

text \<open>\<open>Buffer.from(s, "base64")\<close>: decoding stops at the first \<open>=\<close>, and characters
  outside the alphabet (white space among them) are skipped.\<close>

definition base64_decode :: "string \<Rightarrow> byte list" where
  "base64_decode s =
     decode_sextets (List.map_filter unbase64 (takeWhile (\<lambda>c. c \<noteq> CHR ''='') s))"

text \<open>\<open>Buffer.byteLength(s, "base64")\<close>: computed from the length of the string alone,
  less up to two trailing \<open>=\<close>.\<close>

definition base64ByteLength :: "string \<Rightarrow> nat" where
  "base64ByteLength str =
     (let bytes = length str;
          bytes = (if bytes > 0 \<and> str ! (bytes - 1) = CHR ''='' then bytes - 1 else bytes);
          bytes = (if bytes > 1 \<and> str ! (bytes - 1) = CHR ''='' then bytes - 1 else bytes)
      in (bytes * 3) div 4)"

section \<open>Tool invocations\<close>

subsection \<open>Arguments, errors and effects\<close>

text \<open>
  The arguments of one invocation, as the JSON object of the call carries them: an
  optional argument that is absent is \<open>None\<close>. Each tool reads the keys of its own
  schema and drops the others.
\<close>

record tool_args =
  arg_prompt :: string
  arg_image :: "string option"
  arg_mask :: "string option"
  arg_background :: "string option"
  arg_model :: "string option"
  arg_moderation :: "string option"
  arg_n :: "int option"
  arg_output_compression :: "int option"
  arg_output_format :: "string option"
  arg_quality :: "string option"
  arg_size :: "string option"
  arg_user :: "string option"
  arg_output :: "string option"
  arg_file_output :: "string option"
  arg_filename :: "string option"

text \<open>
  Every failure of an invocation is a thrown error. The constructors are the error kinds;
  \<open>InvalidParameter\<close> carries the names of the arguments that were rejected,
  \<open>InvalidInput\<close> the name of the field, the other two the message or path.
\<close>

datatype error =
    InvalidParameter "string list"
  | InvalidInput string
  | UpstreamFailure string
  | FilesystemFailure string

datatype content =
    ImageContent string string
  | TextContent string

record image =
  b64 :: string
  mimeType :: string
  ext :: string

record upload =
  upload_data :: "byte list"
  upload_name :: "string option"
  upload_type :: string

record image_params =
  ip_prompt :: string
  ip_model :: string
  ip_background :: "string option"
  ip_moderation :: "string option"
  ip_n :: "int option"
  ip_output_format :: "string option"
  ip_quality :: "string option"
  ip_size :: "js_value option"
  ip_user :: "string option"
  ip_output_compression :: "int option"

record edit_params =
  ep_image :: upload
  ep_prompt :: string
  ep_model :: string
  ep_mask :: "upload option"
  ep_n :: "int option"
  ep_quality :: "string option"
  ep_size :: "js_value option"
  ep_user :: "string option"

text \<open>
  What an invocation meets outside the process: the upstream service (an error message, or
  the \<open>b64_json\<close> strings of \<open>result.data\<close>), the file system, the home directory, the
  environment variable of the work directory and the clock.
\<close>

record env =
  images_generate :: "image_params \<Rightarrow> string + string list"
  images_edit :: "edit_params \<Rightarrow> string + string list"
  readFile :: "string \<Rightarrow> byte list option"
  writeFile_ok :: "string \<Rightarrow> bool"
  mkdir_ok :: "string \<Rightarrow> bool"
  homedir :: string
  MCP_HF_WORK_DIR :: "string option"
  Date_now :: nat

text \<open>
  What an invocation did: the requests it sent to the upstream service, the files it wrote
  (path and bytes, in order), and the response or the error. The client object is taken
  to be constructed without failure (the credentials are configured).
\<close>

datatype upstream_call = Generate image_params | Edit edit_params

record outcome =
  upstream_calls :: "upstream_call list"
  written :: "(string \<times> byte list) list"
  response :: "error + content list"

definition rejected :: "error \<Rightarrow> outcome" where
  "rejected err = \<lparr>upstream_calls = [], written = [], response = Inl err\<rparr>"

text \<open>Truthiness of an optional string and of an optional number.\<close>

definition given :: "string option \<Rightarrow> bool" where
  "given v = (case v of None \<Rightarrow> False | Some s \<Rightarrow> s \<noteq> [])"

definition keep_given :: "string option \<Rightarrow> string option" where
  "keep_given v = (if given v then v else None)"

definition keep_nonzero :: "int option \<Rightarrow> int option" where
  "keep_nonzero v = (if v = Some 0 then None else v)"

subsection \<open>Path and payload checks\<close>

text \<open>The pattern \<open>/^[a-zA-Z]:[/\\]/\<close>.\<close>

definition drive_letter_path :: "string \<Rightarrow> bool" where
  "drive_letter_path v =
     (case v of
        a # b # c # rest \<Rightarrow> is_alpha a \<and> b = CHR '':'' \<and> (c = CHR ''/'' \<or> c = BACKSLASH)
      | _ \<Rightarrow> False)"

definition absolutePathCheck :: "string option \<Rightarrow> bool" where
  "absolutePathCheck val =
     (case val of
        None \<Rightarrow> True
      | Some v \<Rightarrow>
          if v = [] then True
          else if startsWith v ''/'' then True
          else if drive_letter_path v then True
          else False)"

text \<open>The class \<open>[A-Za-z0-9+/=\r\n]\<close>.\<close>

definition is_base64_text :: "char \<Rightarrow> bool" where
  "is_base64_text c =
     (is_alpha c \<or> is_digit c \<or> c \<in> set ''+/='' \<or> code c = 13 \<or> code c = 10)"

definition base64Check :: "string option \<Rightarrow> bool" where
  "base64Check val =
     (case val of
        None \<Rightarrow> False
      | Some v \<Rightarrow> v \<noteq> [] \<and> (list_all is_base64_text v \<or> startsWith v ''data:image/''))"

definition is_line_terminator :: "char \<Rightarrow> bool" where
  "is_line_terminator c = (code c = 10 \<or> code c = 13)"

text \<open>
  \<open>input.match(/^data:(image\/\w+);base64,(.*)$/)\<close>: the two groups, when the pattern
  matches. The dot matches no line terminator and \<open>$\<close> only the end of the input.
\<close>

definition match_data_url :: "string \<Rightarrow> (string \<times> string) option" where
  "match_data_url input =
     (if startsWith input ''data:image/'' then
        let subtype = takeWhile is_word (drop 11 input);
            after = dropWhile is_word (drop 11 input)
        in if subtype \<noteq> [] \<and> startsWith after '';base64,''
              \<and> \<not> list_ex is_line_terminator (drop 8 after)
           then Some (''image/'' @ subtype, drop 8 after)
           else None
      else None)"

text \<open>
  \<open>inputToFile\<close>: an input the path check accepts is read from disk, with the type taken
  from the text after its last dot; any other input is decoded as base64, after a data
  URL prefix has been taken off.
\<close>

definition inputToFile :: "env \<Rightarrow> string \<Rightarrow> nat \<Rightarrow> error + upload" where
  "inputToFile e input idx =
     (if absolutePathCheck (Some input) then
        let suffix = toLowerCase (last (split_on CHR ''.'' input));
            mime = (if suffix = ''jpg'' \<or> suffix = ''jpeg'' then ''image/jpeg''
                    else if suffix = ''webp'' then ''image/webp''
                    else ''image/png'')
        in case readFile e input of
             None \<Rightarrow> Inl (FilesystemFailure input)
           | Some bytes \<Rightarrow> Inr \<lparr>upload_data = bytes, upload_name = None, upload_type = mime\<rparr>
      else
        let (mime, base64) =
              (if startsWith input ''data:image/'' then
                 (case match_data_url input of
                    Some (m, payload) \<Rightarrow> (m, payload)
                  | None \<Rightarrow> (''image/png'', input))
               else (''image/png'', input));
            buffer = base64_decode base64;
            parts = split_on CHR ''/'' mime;
            subtype = (if length parts > 1 \<and> parts ! 1 \<noteq> [] then parts ! 1 else ''png'')
        in Inr \<lparr>upload_data = buffer,
                upload_name = Some (''input_'' @ show_nat idx @ ''.'' @ subtype),
                upload_type = mime\<rparr>)"

subsection \<open>Schemas\<close>

definition in_enum :: "string list \<Rightarrow> string option \<Rightarrow> bool" where
  "in_enum allowed v = (case v of None \<Rightarrow> True | Some s \<Rightarrow> s \<in> set allowed)"

definition in_range :: "int \<Rightarrow> int \<Rightarrow> int option \<Rightarrow> bool" where
  "in_range lo hi v = (case v of None \<Rightarrow> True | Some k \<Rightarrow> lo \<le> k \<and> k \<le> hi)"

text \<open>The names of the arguments that fail a list of named checks.\<close>

definition issues :: "(string \<times> bool) list \<Rightarrow> string list" where
  "issues checks = map fst (filter (\<lambda>(field, ok). \<not> ok) checks)"

text \<open>The defaults a schema fills in: \<open>model\<close> and \<open>output\<close>.\<close>

definition with_defaults :: "tool_args \<Rightarrow> tool_args" where
  "with_defaults args =
     args\<lparr>arg_model := Some (case arg_model args of None \<Rightarrow> ''gpt-image-1'' | Some m \<Rightarrow> m),
          arg_output := Some (case arg_output args of None \<Rightarrow> ''base64'' | Some v \<Rightarrow> v)\<rparr>"

text \<open>
  The shape of \<open>createImageSchema\<close>, which is what \<open>create-image\<close> is registered with:
  the field checks, without the refinement of the whole object.
\<close>

definition createImageShape_issues :: "tool_args \<Rightarrow> string list" where
  "createImageShape_issues args =
     issues
       [(''prompt'', length (arg_prompt args) \<le> 32000),
        (''background'', in_enum [''transparent'', ''opaque'', ''auto''] (arg_background args)),
        (''model'', in_enum [''gpt-image-1''] (arg_model args)),
        (''moderation'', in_enum [''auto'', ''low''] (arg_moderation args)),
        (''n'', in_range 1 10 (arg_n args)),
        (''output_compression'', in_range 0 100 (arg_output_compression args)),
        (''output_format'', in_enum [''png'', ''jpeg'', ''webp''] (arg_output_format args)),
        (''quality'', in_enum [''auto'', ''high'', ''medium'', ''low''] (arg_quality args)),
        (''size'', in_enum validSizes (arg_size args)),
        (''output'', in_enum [''base64'', ''file_output''] (arg_output args)),
        (''file_output'', absolutePathCheck (arg_file_output args))]"

text \<open>The refinement both full schemas declare on the whole object.\<close>

definition file_output_refinement :: "tool_args \<Rightarrow> bool" where
  "file_output_refinement data =
     (if arg_output data \<noteq> Some ''file_output'' then True
      else if arg_file_output data = None then False
      else absolutePathCheck (arg_file_output data))"

definition editImageBaseSchema_issues :: "tool_args \<Rightarrow> string list" where
  "editImageBaseSchema_issues args =
     issues
       [(''image'', arg_image args \<noteq> None),
        (''prompt'', length (arg_prompt args) \<le> 32000),
        (''model'', in_enum [''gpt-image-1''] (arg_model args)),
        (''n'', in_range 1 10 (arg_n args)),
        (''quality'', in_enum [''auto'', ''high'', ''medium'', ''low''] (arg_quality args)),
        (''size'', in_enum validSizes (arg_size args)),
        (''output'', in_enum [''base64'', ''file_output''] (arg_output args)),
        (''file_output'', absolutePathCheck (arg_file_output args))]"

text \<open>\<open>editImageSchema.parse\<close>: the base schema, then the refinement on the parsed object.\<close>

definition editImageSchema_parse :: "tool_args \<Rightarrow> error + tool_args" where
  "editImageSchema_parse args =
     (if editImageBaseSchema_issues args \<noteq> [] then Inl (InvalidParameter (editImageBaseSchema_issues args))
      else if \<not> file_output_refinement (with_defaults args) then Inl (InvalidParameter [''file_output''])
      else Inr (with_defaults args))"

subsection \<open>Output routing\<close>

definition MAX_RESPONSE_SIZE :: nat where
  "MAX_RESPONSE_SIZE = 1048576"

definition totalBase64Size :: "image list \<Rightarrow> nat" where
  "totalBase64Size images = sum_list (map (\<lambda>img. base64ByteLength (b64 img)) images)"

text \<open>The switch to file output: the variable \<open>effectiveOutput\<close> of both handlers.\<close>

definition effectiveOutput :: "string \<Rightarrow> image list \<Rightarrow> string" where
  "effectiveOutput output images =
     (if output = ''base64'' \<and> totalBase64Size images > MAX_RESPONSE_SIZE then ''file_output''
      else output)"

definition getDefaultOutputDir :: "env \<Rightarrow> string" where
  "getDefaultOutputDir e =
     (let defaultDir = path_join [homedir e, ''Pictures'', ''gpt-image'']
      in if mkdir_ok e defaultDir then defaultDir
         else (case MCP_HF_WORK_DIR e of
                 None \<Rightarrow> ''/tmp''
               | Some d \<Rightarrow> if d \<noteq> [] then d else ''/tmp''))"

text \<open>The file writing loop of both handlers: one write per image, in order; a failed
  write ends the invocation and leaves the earlier files in place.\<close>

fun write_images :: "env \<Rightarrow> (nat \<Rightarrow> image \<Rightarrow> string) \<Rightarrow> nat \<Rightarrow> image list
    \<Rightarrow> (string \<times> byte list) list \<times> (error + content list)" where
  "write_images e filePath i [] = ([], Inr [])"
| "write_images e filePath i (img # rest) =
     (if \<not> writeFile_ok e (filePath i img) then ([], Inl (FilesystemFailure (filePath i img)))
      else
        let (files, result) = write_images e filePath (i + 1) rest
        in ((filePath i img, base64_decode (b64 img)) # files,
            (case result of
               Inl err \<Rightarrow> Inl err
             | Inr responses \<Rightarrow>
                 Inr (TextContent (''Image saved to: file://'' @ filePath i img) # responses))))"

definition inline_content :: "image list \<Rightarrow> content list" where
  "inline_content images = map (\<lambda>img. ImageContent (b64 img) (mimeType img)) images"

text \<open>The two branches on \<open>effectiveOutput\<close>, after the upstream calls \<open>calls\<close>.\<close>

definition deliver :: "env \<Rightarrow> upstream_call list \<Rightarrow> string \<Rightarrow> (nat \<Rightarrow> image \<Rightarrow> string)
    \<Rightarrow> image list \<Rightarrow> outcome" where
  "deliver e calls mode filePath images =
     (if mode = ''file_output'' then
        let (files, result) = write_images e filePath 0 images
        in \<lparr>upstream_calls = calls, written = files, response = result\<rparr>
      else \<lparr>upstream_calls = calls, written = [], response = Inr (inline_content images)\<rparr>)"

subsection \<open>create-image\<close>

definition create_filePath :: "string \<Rightarrow> nat \<Rightarrow> nat \<Rightarrow> image \<Rightarrow> string" where
  "create_filePath basePath count i img =
     (let parsed = path_parse basePath
      in if count > 1
         then path_join [path_dir parsed, path_name parsed @ ''_'' @ show_nat (i + 1) @ ''.'' @ ext img]
         else path_join [path_dir parsed, path_name parsed @ ''.'' @ ext img])"

definition create_default_path :: "env \<Rightarrow> tool_args \<Rightarrow> image list \<Rightarrow> string" where
  "create_default_path e args images =
     (let defaultDir = getDefaultOutputDir e;
          stamp = ''openai_image_'' @ show_nat (Date_now e);
          baseFilename = (case arg_filename args of
                            None \<Rightarrow> stamp
                          | Some f \<Rightarrow> if f \<noteq> [] then sanitizeFilename f else stamp)
      in path_join [defaultDir,
                    baseFilename @ ''.'' @ (case images of [] \<Rightarrow> ''png'' | img # rest \<Rightarrow> ext img)])"

definition create_images :: "string option \<Rightarrow> string list \<Rightarrow> image list" where
  "create_images output_format data =
     map (\<lambda>b. \<lparr>b64 = b,
               mimeType = (if output_format = Some ''jpeg'' then ''image/jpeg''
                           else if output_format = Some ''webp'' then ''image/webp''
                           else ''image/png''),
               ext = (if output_format = Some ''jpeg'' then ''jpg''
                      else if output_format = Some ''webp'' then ''webp''
                      else ''png'')\<rparr>) data"

text \<open>The base path of the files: \<open>file_output\<close> when it is given, the default path
  otherwise.\<close>

definition create_basePath :: "env \<Rightarrow> tool_args \<Rightarrow> image list \<Rightarrow> string" where
  "create_basePath e args images =
     (case arg_file_output args of
        None \<Rightarrow> create_default_path e args images
      | Some p \<Rightarrow> if p \<noteq> [] then p else create_default_path e args images)"

definition create_route :: "env \<Rightarrow> upstream_call list \<Rightarrow> tool_args \<Rightarrow> image list \<Rightarrow> outcome" where
  "create_route e calls args images =
     (let output = (case arg_output args of None \<Rightarrow> ''base64'' | Some v \<Rightarrow> v)
      in deliver e calls (effectiveOutput output images)
           (create_filePath (create_basePath e args images) (length images)) images)"

definition create_imageParams :: "tool_args \<Rightarrow> js_value option \<Rightarrow> image_params" where
  "create_imageParams args parsedSize =
     \<lparr>ip_prompt = arg_prompt args,
      ip_model = (case arg_model args of None \<Rightarrow> ''gpt-image-1'' | Some m \<Rightarrow> m),
      ip_background = keep_given (arg_background args),
      ip_moderation = keep_given (arg_moderation args),
      ip_n = keep_nonzero (arg_n args),
      ip_output_format = keep_given (arg_output_format args),
      ip_quality = keep_given (arg_quality args),
      ip_size = (case parsedSize of None \<Rightarrow> None | Some v \<Rightarrow> if truthy v then Some v else None),
      ip_user = keep_given (arg_user args),
      ip_output_compression =
        (if arg_output_compression args \<noteq> None
            \<and> (case arg_output_format args of
                   None \<Rightarrow> False
                 | Some f \<Rightarrow> f \<noteq> [] \<and> f \<in> set [''webp'', ''jpeg''])
         then arg_output_compression args else None)\<rparr>"

text \<open>\<open>sizeRaw ? parseSize(sizeRaw) : sizeRaw\<close>, and the test that rejects the result.\<close>

definition parsed_size :: "string option \<Rightarrow> js_value option" where
  "parsed_size sizeRaw =
     (case sizeRaw of
        None \<Rightarrow> None
      | Some s \<Rightarrow> if s \<noteq> [] then Some (parseSize s) else Some (JString s))"

definition invalid_size :: "js_value option \<Rightarrow> bool" where
  "invalid_size parsedSize =
     (case parsedSize of
        None \<Rightarrow> False
      | Some v \<Rightarrow> truthy v \<and> v \<notin> set (map JString validSizes))"

definition create_image_handler :: "env \<Rightarrow> tool_args \<Rightarrow> outcome" where
  "create_image_handler e args =
     (let background = arg_background args;
          output_format = arg_output_format args;
          parsedSize = parsed_size (arg_size args)
      in if invalid_size parsedSize
         then rejected (InvalidParameter [''size''])
         else if background = Some ''transparent''
                 \<and> (case output_format of
                        None \<Rightarrow> False
                      | Some f \<Rightarrow> f \<noteq> [] \<and> f \<notin> set [''png'', ''webp''])
         then rejected (InvalidParameter [''output_format''])
         else
           let imageParams = create_imageParams args parsedSize
           in case images_generate e imageParams of
                Inl msg \<Rightarrow> \<lparr>upstream_calls = [Generate imageParams], written = [],
                            response = Inl (UpstreamFailure msg)\<rparr>
              | Inr data \<Rightarrow>
                  create_route e [Generate imageParams] args (create_images output_format data))"

text \<open>
  One invocation of \<open>create-image\<close>: the server checks the arguments against the registered
  shape and calls the handler with the parsed arguments.
\<close>

definition create_image :: "env \<Rightarrow> tool_args \<Rightarrow> outcome" where
  "create_image e args =
     (if createImageShape_issues args \<noteq> [] then rejected (InvalidParameter (createImageShape_issues args))
      else create_image_handler e (with_defaults args))"

subsection \<open>edit-image\<close>

definition edit_filePath :: "string \<Rightarrow> nat \<Rightarrow> nat \<Rightarrow> image \<Rightarrow> string" where
  "edit_filePath basePath count i img =
     (let parsed = path_parse basePath;
          suffix = (if path_ext parsed \<noteq> [] then path_ext parsed else ''.'' @ ext img)
      in if count > 1
         then path_join [path_dir parsed, path_name parsed @ ''_'' @ show_nat (i + 1) @ suffix]
         else path_join [path_dir parsed, path_name parsed @ suffix])"

definition edit_default_path :: "env \<Rightarrow> tool_args \<Rightarrow> string" where
  "edit_default_path e args =
     (let defaultDir = getDefaultOutputDir e;
          stamp = ''openai_image_edit_'' @ show_nat (Date_now e);
          baseFilename = (case arg_filename args of
                            None \<Rightarrow> stamp
                          | Some f \<Rightarrow> if f \<noteq> [] then sanitizeFilename f else stamp)
      in path_join [defaultDir, baseFilename @ ''.png''])"

definition edit_images :: "string list \<Rightarrow> image list" where
  "edit_images data = map (\<lambda>b. \<lparr>b64 = b, mimeType = ''image/png'', ext = ''png''\<rparr>) data"

definition edit_basePath :: "env \<Rightarrow> tool_args \<Rightarrow> string" where
  "edit_basePath e args =
     (case arg_file_output args of
        None \<Rightarrow> edit_default_path e args
      | Some p \<Rightarrow> if p \<noteq> [] then p else edit_default_path e args)"

definition edit_route :: "env \<Rightarrow> upstream_call list \<Rightarrow> tool_args \<Rightarrow> image list \<Rightarrow> outcome" where
  "edit_route e calls args images =
     (let output = (case arg_output args of None \<Rightarrow> ''base64'' | Some v \<Rightarrow> v)
      in deliver e calls (effectiveOutput output images)
           (edit_filePath (edit_basePath e args) (length images)) images)"

definition edit_editParams :: "tool_args \<Rightarrow> upload \<Rightarrow> upload option \<Rightarrow> js_value option \<Rightarrow> edit_params" where
  "edit_editParams args imageFile maskFile parsedSize =
     \<lparr>ep_image = imageFile,
      ep_prompt = arg_prompt args,
      ep_model = (case arg_model args of None \<Rightarrow> ''gpt-image-1'' | Some m \<Rightarrow> m),
      ep_mask = maskFile,
      ep_n = keep_nonzero (arg_n args),
      ep_quality = keep_given (arg_quality args),
      ep_size = (case parsedSize of None \<Rightarrow> None | Some v \<Rightarrow> if truthy v then Some v else None),
      ep_user = keep_given (arg_user args)\<rparr>"

text \<open>\<open>maskInput ? await inputToFile(maskInput, 1) : undefined\<close>.\<close>

definition resolve_mask :: "env \<Rightarrow> string option \<Rightarrow> error + upload option" where
  "resolve_mask e maskInput =
     (case maskInput of
        None \<Rightarrow> Inr None
      | Some m \<Rightarrow>
          if m \<noteq> [] then (case inputToFile e m 1 of Inl err \<Rightarrow> Inl err | Inr f \<Rightarrow> Inr (Some f))
          else Inr None)"

text \<open>The part of the handler after its checks: the inputs are resolved, the upstream
  service is called, the result is routed.\<close>

definition edit_request :: "env \<Rightarrow> tool_args \<Rightarrow> string \<Rightarrow> js_value option \<Rightarrow> outcome" where
  "edit_request e validatedArgs imageInput parsedSize =
     (case inputToFile e imageInput 0 of
        Inl err \<Rightarrow> rejected err
      | Inr imageFile \<Rightarrow>
          (case resolve_mask e (arg_mask validatedArgs) of
             Inl err \<Rightarrow> rejected err
           | Inr maskFile \<Rightarrow>
               let editParams = edit_editParams validatedArgs imageFile maskFile parsedSize
               in case images_edit e editParams of
                    Inl msg \<Rightarrow> \<lparr>upstream_calls = [Edit editParams], written = [],
                                response = Inl (UpstreamFailure msg)\<rparr>
                  | Inr data \<Rightarrow> edit_route e [Edit editParams] validatedArgs (edit_images data)))"

definition edit_image_handler :: "env \<Rightarrow> tool_args \<Rightarrow> outcome" where
  "edit_image_handler e args =
     (case editImageSchema_parse args of
        Inl err \<Rightarrow> rejected err
      | Inr validatedArgs \<Rightarrow>
          (case arg_image validatedArgs of
             None \<Rightarrow> rejected (InvalidParameter [''image''])
           | Some imageInput \<Rightarrow>
               if \<not> absolutePathCheck (Some imageInput) \<and> \<not> base64Check (Some imageInput)
               then rejected (InvalidInput ''image'')
               else if given (arg_mask validatedArgs)
                       \<and> \<not> absolutePathCheck (arg_mask validatedArgs)
                       \<and> \<not> base64Check (arg_mask validatedArgs)
               then rejected (InvalidInput ''mask'')
               else
                 let parsedSize = parsed_size (arg_size validatedArgs)
                 in if invalid_size parsedSize
                    then rejected (InvalidParameter [''size''])
                    else edit_request e validatedArgs imageInput parsedSize))"

text \<open>
  One invocation of \<open>edit-image\<close>: the server checks the arguments against the shape of
  the base schema and calls the handler with the parsed arguments.
\<close>

definition edit_image :: "env \<Rightarrow> tool_args \<Rightarrow> outcome" where
  "edit_image e args =
     (if editImageBaseSchema_issues args \<noteq> []
      then rejected (InvalidParameter (editImageBaseSchema_issues args))
      else edit_image_handler e (with_defaults args))"

section \<open>Notions the properties speak of\<close>

text \<open>\<open>s.includes(p)\<close>: the string \<open>p\<close> occurs in \<open>s\<close>.\<close>

fun contains :: "string \<Rightarrow> string \<Rightarrow> bool" where
  "contains [] p = (p = [])"
| "contains (c # cs) p = (startsWith (c # cs) p \<or> contains cs p)"


text \<open>
  Inline delivery: nothing is written, and the response carries each image's base64 text with
  its MIME type, in order.
\<close>

definition inline_delivery :: "image list \<Rightarrow> outcome \<Rightarrow> bool" where
  "inline_delivery images out = (written out = [] \<and> response out = Inr (inline_content images))"

text \<open>A byte that holds a 6-bit value.\<close>

definition is_sextet :: "byte \<Rightarrow> bool" where
  "is_sextet x = (x AND 63 = x)"

text \<open>A string without the trailing \<open>=\<close> that \<open>Buffer.byteLength\<close> does not count.\<close>

definition unpadded :: "string \<Rightarrow> string" where
  "unpadded s =
     (let s1 = (if s \<noteq> [] \<and> last s = CHR ''='' then butlast s else s)
      in if length s1 > 1 \<and> last s1 = CHR ''='' then butlast s1 else s1)"

text \<open>
  An invocation with a prompt and nothing else, and a host on which every file operation
  succeeds, \<open>/in.png\<close> is the only readable file and the upstream service answers every
  request with \<open>data\<close>; and the requests the example invocations send.
\<close>

definition example_args :: tool_args where
  "example_args =
     \<lparr>arg_prompt = ''a red cat'', arg_image = None, arg_mask = None, arg_background = None,
      arg_model = None, arg_moderation = None, arg_n = None, arg_output_compression = None,
      arg_output_format = None, arg_quality = None, arg_size = None, arg_user = None,
      arg_output = None, arg_file_output = None, arg_filename = None\<rparr>"

definition example_env :: "string list \<Rightarrow> env" where
  "example_env data =
     \<lparr>images_generate = (\<lambda>p. Inr data),
      images_edit = (\<lambda>p. Inr data),
      readFile = (\<lambda>p. if p = ''/in.png'' then Some [137, 80, 78, 71] else None),
      writeFile_ok = (\<lambda>p. True),
      mkdir_ok = (\<lambda>p. True),
      homedir = ''/home/user'',
      MCP_HF_WORK_DIR = None,
      Date_now = 1700000000000\<rparr>"

definition example_request :: "string option \<Rightarrow> image_params" where
  "example_request fmt =
     \<lparr>ip_prompt = ''a red cat'', ip_model = ''gpt-image-1'', ip_background = None,
      ip_moderation = None, ip_n = None, ip_output_format = fmt, ip_quality = None,
      ip_size = None, ip_user = None, ip_output_compression = None\<rparr>"

definition example_edit_request :: edit_params where
  "example_edit_request =
     \<lparr>ep_image = \<lparr>upload_data = [137, 80, 78, 71], upload_name = None, upload_type = ''image/png''\<rparr>,
      ep_prompt = ''a red cat'', ep_model = ''gpt-image-1'', ep_mask = None, ep_n = None,
      ep_quality = None, ep_size = None, ep_user = None\<rparr>"

section \<open>Evaluation rules\<close>

lemmas string_defs = code_def is_space_def is_control_def is_upper_def is_lower_def is_digit_def
  is_alpha_def is_word_def toLowerCase_def toLowerCase_char_def startsWith_def replace_class_def
  remove_class_def trim_class_def BACKSLASH_def

lemmas path_defs = normalizeString_def path_normalize_def path_join_def path_parse_def is_slash_def
  last_dot_def

lemmas check_defs = absolutePathCheck_def drive_letter_path_def base64Check_def is_base64_text_def
  given_def in_enum_def in_range_def issues_def editImageBaseSchema_issues_def
  createImageShape_issues_def file_output_refinement_def validSizes_def

section \<open>The filename sanitizer\<close>

lemma set_trim_class: "set (trim_class cls s) \<subseteq> set s"
proof -
  have "set (dropWhile cls (rev (dropWhile cls s))) \<subseteq> set (rev (dropWhile cls s))"
    by (rule set_dropWhileD[THEN subsetI])
  also have "\<dots> \<subseteq> set s"
    using set_dropWhileD[of _ cls s] by auto
  finally show ?thesis by (simp add: trim_class_def)
qed

lemma trim_class_prefix: "\<exists>zs. dropWhile cls s = trim_class cls s @ zs"
proof -
  have "rev (dropWhile cls s)
      = takeWhile cls (rev (dropWhile cls s)) @ dropWhile cls (rev (dropWhile cls s))"
    by simp
  then have "dropWhile cls s
      = rev (dropWhile cls (rev (dropWhile cls s))) @ rev (takeWhile cls (rev (dropWhile cls s)))"
    by (metis rev_append rev_rev_ident)
  then show ?thesis unfolding trim_class_def by blast
qed

lemma hd_trim_class:
  assumes "trim_class cls s \<noteq> []"
  shows "\<not> cls (hd (trim_class cls s))"
proof -
  obtain zs where eq: "dropWhile cls s = trim_class cls s @ zs"
    using trim_class_prefix by blast
  then have "dropWhile cls s \<noteq> []" using assms by auto
  then have "\<not> cls (hd (dropWhile cls s))" by (rule hd_dropWhile)
  moreover have "hd (dropWhile cls s) = hd (trim_class cls s)" using eq assms by simp
  ultimately show ?thesis by simp
qed

lemma replaced_chars:
  assumes "c \<in> set (replace_class is_problematic CHR ''-'' (replace_class is_separator CHR ''-'' s))"
  shows "\<not> is_separator c \<and> \<not> is_control c"
  using assms
  by (auto simp: replace_class_def is_separator_def is_problematic_def is_control_def
      BACKSLASH_def code_def)

text \<open>The sanitizer returns the default token or what is left of the input.\<close>

lemma sanitizeFilename_cases:
  "sanitizeFilename s = ''image'' \<or>
   (sanitizeFilename s \<noteq> [] \<and>
    sanitizeFilename s =
      take 200 (trim_class is_space_or_dot
        (replace_class is_problematic CHR ''-'' (replace_class is_separator CHR ''-'' s))))"
  by (auto simp: sanitizeFilename_def Let_def)

lemma sanitizeFilename_chars:
  assumes "c \<in> set (sanitizeFilename s)"
  shows "\<not> is_separator c \<and> \<not> is_control c"
proof -
  from sanitizeFilename_cases[of s] show ?thesis
  proof
    assume "sanitizeFilename s = ''image''"
    with assms show ?thesis
      by (auto simp: is_separator_def is_control_def BACKSLASH_def code_def)
  next
    assume "sanitizeFilename s \<noteq> [] \<and>
      sanitizeFilename s =
        take 200 (trim_class is_space_or_dot
          (replace_class is_problematic CHR ''-'' (replace_class is_separator CHR ''-'' s)))"
    with assms have "c \<in> set (take 200 (trim_class is_space_or_dot
        (replace_class is_problematic CHR ''-'' (replace_class is_separator CHR ''-'' s))))"
      by simp
    then have "c \<in> set (replace_class is_problematic CHR ''-'' (replace_class is_separator CHR ''-'' s))"
      using set_trim_class by (meson in_set_takeD subsetD)
    then show ?thesis by (rule replaced_chars)
  qed
qed

lemma sanitizeFilename_nonempty: "sanitizeFilename s \<noteq> []"
  using sanitizeFilename_cases[of s] by auto

lemma sanitizeFilename_hd: "\<not> is_space_or_dot (hd (sanitizeFilename s))"
proof -
  from sanitizeFilename_cases[of s] show ?thesis
  proof
    assume "sanitizeFilename s = ''image''"
    then show ?thesis by (simp add: is_space_or_dot_def is_space_def code_def)
  next
    assume a: "sanitizeFilename s \<noteq> [] \<and>
      sanitizeFilename s =
        take 200 (trim_class is_space_or_dot
          (replace_class is_problematic CHR ''-'' (replace_class is_separator CHR ''-'' s)))"
    then have ne: "trim_class is_space_or_dot
        (replace_class is_problematic CHR ''-'' (replace_class is_separator CHR ''-'' s)) \<noteq> []"
      by auto
    have "hd (sanitizeFilename s) = hd (trim_class is_space_or_dot
        (replace_class is_problematic CHR ''-'' (replace_class is_separator CHR ''-'' s)))"
      using a by (simp add: hd_take)
    then show ?thesis using hd_trim_class[OF ne] by simp
  qed
qed

lemma sanitizeFilename_no_separator:
  "CHR ''/'' \<notin> set (sanitizeFilename s) \<and> BACKSLASH \<notin> set (sanitizeFilename s)"
  using sanitizeFilename_chars[of "CHR ''/''" s] sanitizeFilename_chars[of BACKSLASH s]
  by (auto simp: is_separator_def)







text \<open>
  C7, as the code has it. For every input the sanitized name is not empty, holds no
  \<open>/\<close> and no backslash, and does not start with a dot; so it is never the path
  component \<open>..\<close> (nor \<open>.\<close>). Dots inside the name are kept.
\<close>

theorem sanitizeFilename_is_plain_component:
  "sanitizeFilename s \<noteq> []
   \<and> CHR ''/'' \<notin> set (sanitizeFilename s)
   \<and> BACKSLASH \<notin> set (sanitizeFilename s)
   \<and> \<not> startsWith (sanitizeFilename s) ''.''
   \<and> sanitizeFilename s \<noteq> ''..''
   \<and> sanitizeFilename s \<noteq> ''.''"
proof -
  have dot: "hd (sanitizeFilename s) \<noteq> CHR ''.''"
    using sanitizeFilename_hd[of s] by (auto simp: is_space_or_dot_def)
  have "\<not> startsWith (sanitizeFilename s) ''.''"
    using dot sanitizeFilename_nonempty[of s]
    by (cases "sanitizeFilename s") (auto simp: startsWith_def)
  moreover have "sanitizeFilename s \<noteq> ''..''" "sanitizeFilename s \<noteq> ''.''"
    using dot by auto
  ultimately show ?thesis
    using sanitizeFilename_nonempty[of s] sanitizeFilename_no_separator[of s] by simp
qed

text \<open>
  C7 as stated fails: the sanitized form of \<open>a..b\<close> is \<open>a..b\<close>, which contains the
  sequence \<open>..\<close>.
\<close>

theorem sanitizeFilename_keeps_inner_dots:
  "contains (sanitizeFilename ''a..b'') ''..''"
  by (simp add: sanitizeFilename_def replace_class_def trim_class_def is_separator_def
      is_problematic_def is_space_or_dot_def is_space_def is_control_def code_def BACKSLASH_def
      startsWith_def)




section \<open>The size normalizer\<close>

lemma aspectRatio_values: "map_of aspectRatioEntries k = Some v \<Longrightarrow> v \<in> set validSizes \<and> v \<noteq> []"
  by (auto simp: aspectRatioEntries_def validSizes_def split: if_splits)

lemma validSizes_not_tokens:
  "s \<in> set validSizes \<Longrightarrow> map_of aspectRatioEntries (remove_class is_space (toLowerCase s)) = None"
  by (auto simp: validSizes_def aspectRatioEntries_def string_defs)

lemma parseSize_valid: "s \<in> set validSizes \<Longrightarrow> parseSize s = JString s"
  by (simp add: parseSize_def)

lemma parseSize_token:
  assumes "map_of aspectRatioEntries (remove_class is_space (toLowerCase s)) = Some v"
  shows "parseSize s = JString v"
proof -
  have "s \<notin> set validSizes" using assms validSizes_not_tokens[of s] by auto
  moreover have "v \<noteq> []" using aspectRatio_values[OF assms] by simp
  ultimately show ?thesis using assms by (simp add: parseSize_def aspectRatioMap_def truthy_def)
qed

lemma parseSize_other:
  assumes "s \<notin> set validSizes"
    and "map_of aspectRatioEntries (remove_class is_space (toLowerCase s)) = None"
    and "remove_class is_space (toLowerCase s) \<notin> set Object_prototype_keys"
  shows "parseSize s = JString s"
  using assms by (simp add: parseSize_def aspectRatioMap_def)

text \<open>
  What the size normalizer does: it returns each of the four valid sizes unchanged; an input
  whose lower-cased form without white space is a key of the table gives the table's value;
  any other input is returned unchanged, provided that form is not the name of a member of
  \<open>Object.prototype\<close>.
\<close>

theorem parseSize_behaviour:
  "(s \<in> set validSizes \<longrightarrow> parseSize s = JString s)
   \<and> (map_of aspectRatioEntries (remove_class is_space (toLowerCase s)) = Some v \<longrightarrow> parseSize s = JString v)
   \<and> (s \<notin> set validSizes
        \<and> map_of aspectRatioEntries (remove_class is_space (toLowerCase s)) = None
        \<and> remove_class is_space (toLowerCase s) \<notin> set Object_prototype_keys \<longrightarrow> parseSize s = JString s)"
  using parseSize_valid[of s] parseSize_token[of s v] parseSize_other[of s] by blast

text \<open>The ten keys of the table and their values.\<close>

lemma token_table:
  "map (\<lambda>t. map_of aspectRatioEntries t)
     [''1:1'', ''square'', ''4:3'', ''3:4'', ''16:9'', ''landscape'', ''3:2'', ''9:16'', ''portrait'', ''2:3'']
   = map Some [''1024x1024'', ''1024x1024'', ''1024x1024'', ''1024x1024'', ''1536x1024'', ''1536x1024'',
       ''1536x1024'', ''1024x1536'', ''1024x1536'', ''1024x1536'']"
  by (simp add: aspectRatioEntries_def)

theorem parseSize_behaviour_witness:
  "''auto'' \<in> set validSizes \<and> parseSize ''auto'' = JString ''auto''
   \<and> map_of aspectRatioEntries (remove_class is_space (toLowerCase '' Land Scape'')) = Some ''1536x1024''
   \<and> parseSize '' Land Scape'' = JString ''1536x1024''
   \<and> ''5:4'' \<notin> set validSizes
   \<and> map_of aspectRatioEntries (remove_class is_space (toLowerCase ''5:4'')) = None
   \<and> remove_class is_space (toLowerCase ''5:4'') \<notin> set Object_prototype_keys
   \<and> parseSize ''5:4'' = JString ''5:4''"
proof -
  have a: "''auto'' \<in> set validSizes" by (simp add: validSizes_def)
  have b: "map_of aspectRatioEntries (remove_class is_space (toLowerCase '' Land Scape'')) = Some ''1536x1024''"
    by code_simp
  have c: "''5:4'' \<notin> set validSizes"
    "map_of aspectRatioEntries (remove_class is_space (toLowerCase ''5:4'')) = None"
    "remove_class is_space (toLowerCase ''5:4'') \<notin> set Object_prototype_keys"
    by (simp_all add: validSizes_def aspectRatioEntries_def Object_prototype_keys_def string_defs)
  show ?thesis
    using a b c parseSize_behaviour[of "''auto''" "''x''"]
      parseSize_behaviour[of "'' Land Scape''" "''1536x1024''"]
      parseSize_behaviour[of "''5:4''" "''x''"]
    by simp
qed

text \<open>
  C4 fails on the code at the input \<open>constructor\<close>: it is no valid size and no key of the
  table, and the normalizer does not return it; the property read finds the inherited
  \<open>constructor\<close> of the object literal, which is truthy, and returns that.
\<close>

theorem parseSize_reads_prototype:
  "parseSize ''constructor'' = JPrototypeMember ''constructor''"
  by (simp add: parseSize_def validSizes_def aspectRatioMap_def aspectRatioEntries_def
      Object_prototype_keys_def truthy_def string_defs)

section \<open>Base64\<close>

lemma masks: "(3::byte) = mask 2" "(15::byte) = mask 4" "(63::byte) = mask 6"
  by (simp_all add: mask_eq_exp_minus_1)

lemma bit_positions: "n < 8 \<Longrightarrow> n \<in> {0, 1, 2, 3, 4, 5, 6, 7::nat}"
  by auto

lemma byte_eqI:
  assumes "bit a 0 = bit b 0" "bit a 1 = bit b 1" "bit a 2 = bit b 2" "bit a 3 = bit b 3"
    "bit a 4 = bit b 4" "bit a 5 = bit b 5" "bit a 6 = bit b 6" "bit a 7 = bit b 7"
  shows "a = (b::byte)"
proof (rule bit_word_eqI)
  fix n assume "n < LENGTH(8)"
  then have "n \<in> {0, 1, 2, 3, 4, 5, 6, 7}"
    using bit_positions[of n] by simp
  with assms show "bit a n = bit b n" by auto
qed

lemma byte_bit_high: "8 \<le> n \<Longrightarrow> bit (a::byte) n = False"
  using bit_imp_le_length[of a n] by auto

lemma is_sextet_less: "is_sextet x \<Longrightarrow> unat x < 64"
proof -
  assume "is_sextet x"
  then have "x = x AND 63" by (simp add: is_sextet_def)
  moreover have "x AND 63 \<le> 63" by (rule word_and_le1)
  ultimately have "x \<le> 63" by simp
  then show ?thesis by (simp add: word_le_nat_alt)
qed

lemma sextets [simp]:
  "is_sextet (sextet1 a)" "is_sextet (sextet2 a b)" "is_sextet (sextet3 b c)" "is_sextet (sextet4 c)"
  unfolding is_sextet_def sextet1_def sextet2_def sextet3_def sextet4_def
  by (rule byte_eqI; simp add: masks bit_simps byte_bit_high)+

lemma octets [simp]:
  "octet1 (sextet1 a) (sextet2 a b) = a"
  "octet2 (sextet2 a b) (sextet3 b c) = b"
  "octet3 (sextet3 b c) (sextet4 c) = c"
  unfolding octet1_def octet2_def octet3_def sextet1_def sextet2_def sextet3_def sextet4_def
  by (rule byte_eqI; simp add: masks bit_simps byte_bit_high)+

lemma alphabet_table:
  "list_all (\<lambda>k. unbase64 (base64_alphabet ! k) = Some (of_nat k) \<and> base64_alphabet ! k \<noteq> CHR ''=''
      \<and> \<not> is_line_terminator (base64_alphabet ! k) \<and> is_base64_text (base64_alphabet ! k)) [0..<64]"
  by code_simp

lemma base64_char_props:
  assumes "is_sextet x"
  shows "unbase64 (base64_char x) = Some x" and "base64_char x \<noteq> CHR ''=''"
    and "\<not> is_line_terminator (base64_char x)" and "is_base64_text (base64_char x)"
proof -
  have "unat x \<in> set [0..<64]" using is_sextet_less[OF assms] by simp
  with alphabet_table have
    "unbase64 (base64_alphabet ! unat x) = Some (of_nat (unat x)) \<and> base64_alphabet ! unat x \<noteq> CHR ''=''
      \<and> \<not> is_line_terminator (base64_alphabet ! unat x) \<and> is_base64_text (base64_alphabet ! unat x)"
    unfolding list_all_iff by blast
  then show "unbase64 (base64_char x) = Some x" and "base64_char x \<noteq> CHR ''=''"
    and "\<not> is_line_terminator (base64_char x)" and "is_base64_text (base64_char x)"
    by (simp_all add: base64_char_def)
qed

lemma pad_char: "is_base64_text CHR ''=''" "\<not> is_line_terminator CHR ''=''" "unbase64 CHR ''='' = None"
  by (simp_all add: is_base64_text_def is_line_terminator_def unbase64_def is_upper_def is_lower_def is_digit_def code_def)

lemma base64_encode_chars:
  "list_all (\<lambda>c. is_base64_text c \<and> \<not> is_line_terminator c) (base64_encode B)"
  by (induction B rule: base64_encode.induct) (simp_all add: base64_char_props pad_char)

lemma length_base64_encode_ge: "B \<noteq> [] \<Longrightarrow> 4 \<le> length (base64_encode B)"
  by (induction B rule: base64_encode.induct) simp_all

lemma butlast_nonempty: "1 < length s \<Longrightarrow> butlast s \<noteq> []"
proof
  assume a: "1 < length s" and "butlast s = []"
  then have "length (butlast s) = length ([] :: 'a list)" by (simp only:)
  with a show False by simp
qed

lemma base64ByteLength_unpadded: "base64ByteLength s = (length (unpadded s) * 3) div 4"
proof (cases "s \<noteq> [] \<and> last s = CHR ''=''")
  case False
  then have 1: "\<not> (0 < length s \<and> s ! (length s - 1) = CHR ''='')"
    by (auto simp: last_conv_nth)
  then have 2: "\<not> (1 < length s \<and> s ! (length s - 1) = CHR ''='')"
    by auto
  have "unpadded s = s"
    using False by (auto simp: unpadded_def)
  then show ?thesis
    using 1 2 unfolding base64ByteLength_def Let_def by auto
next
  case True
  then have 1: "0 < length s \<and> s ! (length s - 1) = CHR ''=''"
    by (auto simp: last_conv_nth)
  show ?thesis
  proof (cases "length (butlast s) > 1 \<and> last (butlast s) = CHR ''=''")
    case t: True
    have "butlast s \<noteq> []" using t by (intro butlast_nonempty) auto
    then have "last (butlast s) = butlast s ! (length (butlast s) - 1)"
      by (rule last_conv_nth)
    also have "\<dots> = s ! (length (butlast s) - 1)"
      using t by (intro nth_butlast) arith
    also have "\<dots> = s ! (length s - 1 - 1)"
      by simp
    finally have 2: "1 < length s - 1 \<and> s ! (length s - 1 - 1) = CHR ''=''"
      using t by simp
    have "unpadded s = butlast (butlast s)"
      using True t by (auto simp: unpadded_def Let_def)
    then show ?thesis
      using 1 2 unfolding base64ByteLength_def Let_def by auto
  next
    case f: False
    have 2: "\<not> (1 < length s - 1 \<and> s ! (length s - 1 - 1) = CHR ''='')"
    proof
      assume a: "1 < length s - 1 \<and> s ! (length s - 1 - 1) = CHR ''=''"
      then have ne: "butlast s \<noteq> []" by (intro butlast_nonempty) auto
      have "last (butlast s) = butlast s ! (length (butlast s) - 1)"
        using ne by (rule last_conv_nth)
      also have "\<dots> = s ! (length (butlast s) - 1)"
        using a by (intro nth_butlast) (simp, arith)
      also have "\<dots> = s ! (length s - 1 - 1)"
        by simp
      finally show False using a f by simp
    qed
    have "unpadded s = butlast s"
      using True f by (auto simp: unpadded_def Let_def)
    then show ?thesis
      using 1 2 unfolding base64ByteLength_def Let_def by auto
  qed
qed

lemma unpadded_append:
  assumes "3 \<le> length ys"
  shows "unpadded (xs @ ys) = xs @ unpadded ys"
proof -
  have ne: "ys \<noteq> []" using assms by auto
  have "butlast ys \<noteq> []" using assms by (intro butlast_nonempty) simp
  then show ?thesis
    using ne assms
    by (auto simp: unpadded_def Let_def butlast_append)
qed

lemma base64ByteLength_append:
  assumes "length xs = 4" "3 \<le> length ys"
  shows "base64ByteLength (xs @ ys) = 3 + base64ByteLength ys"
  using assms by (simp add: base64ByteLength_unpadded unpadded_append)

text \<open>On the base64 text of a buffer, \<open>Buffer.byteLength\<close> is the length of the buffer,
  and decoding gives the buffer back.\<close>

lemma base64ByteLength_encode: "base64ByteLength (base64_encode B) = length B"
proof (induction B rule: base64_encode.induct)
  case (1 a b c rest)
  show ?case
  proof (cases "rest = []")
    case True
    then show ?thesis
      by (simp add: base64ByteLength_def base64_char_props)
  next
    case False
    have "base64ByteLength ([base64_char (sextet1 a), base64_char (sextet2 a b),
      base64_char (sextet3 b c), base64_char (sextet4 c)] @ base64_encode rest)
        = 3 + base64ByteLength (base64_encode rest)"
      using length_base64_encode_ge[OF False] by (intro base64ByteLength_append) simp_all
    with 1 show ?thesis by simp
  qed
next
  case (2 a b)
  then show ?case by (simp add: base64ByteLength_def base64_char_props)
next
  case (3 a)
  then show ?case by (simp add: base64ByteLength_def)
next
  case 4
  then show ?case by (simp add: base64ByteLength_def)
qed

lemma base64_decode_encode: "base64_decode (base64_encode B) = B"
proof (induction B rule: base64_encode.induct)
  case (1 a b c rest)
  then show ?case by (simp add: base64_decode_def base64_char_props List.map_filter_simps)
next
  case (2 a b)
  then show ?case by (simp add: base64_decode_def base64_char_props List.map_filter_simps)
next
  case (3 a)
  then show ?case by (simp add: base64_decode_def base64_char_props List.map_filter_simps)
next
  case 4
  then show ?case by (simp add: base64_decode_def List.map_filter_simps)
qed

lemma base64_encode_Nil_iff: "base64_encode B = [] \<longleftrightarrow> B = []"
  by (induction B rule: base64_encode.induct) simp_all

lemma first_sextet_slash: "(sextet1 a = 63) = (252 \<le> a)"
proof -
  have "sextet1 a = 63 \<longleftrightarrow> unat (drop_bit 2 a) = unat (63 :: byte)"
    unfolding sextet1_def by (rule word_unat_eq_iff)
  also have "\<dots> \<longleftrightarrow> unat (drop_bit 2 a) = 63"
    by simp
  also have "\<dots> \<longleftrightarrow> unat a div 4 = 63"
    by (simp add: drop_bit_eq_div unat_div)
  also have "\<dots> \<longleftrightarrow> 252 \<le> unat a"
    using unsigned_less[of a, where 'a = nat] by auto
  also have "\<dots> \<longleftrightarrow> 252 \<le> a"
    by (simp add: word_le_nat_alt)
  finally show ?thesis .
qed

lemma base64_char_slash: "is_sextet x \<Longrightarrow> (base64_char x = CHR ''/'') = (x = 63)"
proof -
  assume s: "is_sextet x"
  have u: "unbase64 CHR ''/'' = Some 63"
    by (simp add: unbase64_def is_upper_def is_lower_def is_digit_def code_def)
  have c: "base64_char 63 = CHR ''/''"
    by (simp add: base64_char_def base64_alphabet_def)
  show ?thesis
    using base64_char_props(1)[OF s] u c by auto
qed

text \<open>The base64 text of a buffer starts with \<open>/\<close> exactly when its first byte is
  \<open>0xFC\<close> or more.\<close>

lemma encoded_starts_with_slash:
  "startsWith (base64_encode B) ''/'' \<longleftrightarrow> B \<noteq> [] \<and> 252 \<le> hd B"
  by (induction B rule: base64_encode.induct)
     (simp_all add: startsWith_def base64_char_slash first_sextet_slash)

section \<open>Schemas and handlers\<close>

lemma split_on_absent: "sep \<notin> set s \<Longrightarrow> split_on sep s = [s]"
  by (induction s) auto

lemma issues_empty: "issues checks = [] \<longleftrightarrow> list_all snd checks"
  by (induction checks) (auto simp: issues_def)

lemma with_defaults_fields [simp]:
  "arg_prompt (with_defaults args) = arg_prompt args"
  "arg_image (with_defaults args) = arg_image args"
  "arg_mask (with_defaults args) = arg_mask args"
  "arg_background (with_defaults args) = arg_background args"
  "arg_moderation (with_defaults args) = arg_moderation args"
  "arg_n (with_defaults args) = arg_n args"
  "arg_output_compression (with_defaults args) = arg_output_compression args"
  "arg_output_format (with_defaults args) = arg_output_format args"
  "arg_quality (with_defaults args) = arg_quality args"
  "arg_size (with_defaults args) = arg_size args"
  "arg_user (with_defaults args) = arg_user args"
  "arg_file_output (with_defaults args) = arg_file_output args"
  "arg_filename (with_defaults args) = arg_filename args"
  "arg_model (with_defaults args) = Some (case arg_model args of None \<Rightarrow> ''gpt-image-1'' | Some m \<Rightarrow> m)"
  "arg_output (with_defaults args) = Some (case arg_output args of None \<Rightarrow> ''base64'' | Some v \<Rightarrow> v)"
  by (simp_all add: with_defaults_def)

lemma with_defaults_idem [simp]: "with_defaults (with_defaults args) = with_defaults args"
  by (simp add: with_defaults_def)

lemma editImageBaseSchema_issues_defaults:
  "editImageBaseSchema_issues args = [] \<Longrightarrow> editImageBaseSchema_issues (with_defaults args) = []"
  by (auto simp: editImageBaseSchema_issues_def issues_empty in_enum_def split: option.splits)

lemma rejected_calls [simp]: "upstream_calls (rejected err) = []"
  by (simp add: rejected_def)

lemma rejected_shape [simp]:
  "response (rejected err) = Inl err" "written (rejected err) = []"
  by (simp_all add: rejected_def)

lemma createImageShape_output:
  assumes "createImageShape_issues args = []"
  shows "arg_output args = None \<or> arg_output args = Some ''base64'' \<or> arg_output args = Some ''file_output''"
  using assms by (auto simp: createImageShape_issues_def issues_empty in_enum_def split: option.splits)

lemma editImageBaseSchema_output:
  assumes "editImageBaseSchema_issues args = []"
  shows "arg_output args = None \<or> arg_output args = Some ''base64'' \<or> arg_output args = Some ''file_output''"
  using assms by (auto simp: editImageBaseSchema_issues_def issues_empty in_enum_def split: option.splits)

lemma create_shape_rejects_relative:
  assumes "\<not> absolutePathCheck (arg_file_output args)"
  shows "createImageShape_issues args \<noteq> []"
  using assms by (simp add: createImageShape_issues_def issues_empty)

lemma edit_shape_rejects_relative:
  assumes "\<not> absolutePathCheck (arg_file_output args)"
  shows "editImageBaseSchema_issues args \<noteq> []"
  using assms by (simp add: editImageBaseSchema_issues_def issues_empty)

lemma create_shape_rejects_size:
  assumes "arg_size args = Some s" "s \<notin> set validSizes"
  shows "createImageShape_issues args \<noteq> []"
  using assms by (simp add: createImageShape_issues_def issues_empty in_enum_def)

lemma edit_shape_rejects_size:
  assumes "arg_size args = Some s" "s \<notin> set validSizes"
  shows "editImageBaseSchema_issues args \<noteq> []"
  using assms by (simp add: editImageBaseSchema_issues_def issues_empty in_enum_def)

lemma not_absolute:
  "p \<noteq> [] \<Longrightarrow> \<not> startsWith p ''/'' \<Longrightarrow> \<not> drive_letter_path p \<Longrightarrow> \<not> absolutePathCheck (Some p)"
  by (simp add: absolutePathCheck_def)

lemma editImageSchema_parse_Inr:
  "editImageSchema_parse args = Inr validatedArgs \<Longrightarrow> validatedArgs = with_defaults args"
  by (auto simp: editImageSchema_parse_def split: if_splits)

lemma editImageSchema_parse_ok:
  assumes "editImageBaseSchema_issues args = []" and "file_output_refinement (with_defaults args)"
  shows "editImageSchema_parse (with_defaults args) = Inr (with_defaults args)"
  using assms editImageBaseSchema_issues_defaults[of args]
  by (simp add: editImageSchema_parse_def)

section \<open>Delivery\<close>

lemma write_images_all_ok:
  assumes "\<forall>p. writeFile_ok e p"
  shows "write_images e fp i imgs =
           (map (\<lambda>k. (fp (i + k) (imgs ! k), base64_decode (b64 (imgs ! k)))) [0..<length imgs],
            Inr (map (\<lambda>k. TextContent (''Image saved to: file://'' @ fp (i + k) (imgs ! k))) [0..<length imgs]))"
proof (induction imgs arbitrary: i)
  case Nil
  then show ?case by simp
next
  case (Cons img rest)
  show ?case
    using assms Cons.IH[of "i + 1"] by (simp add: map_upt_Suc del: upt_Suc)
qed

lemma deliver_calls [simp]: "upstream_calls (deliver e calls mode fp images) = calls"
  by (simp add: deliver_def split: prod.split)

lemma deliver_inline: "mode \<noteq> ''file_output'' \<Longrightarrow> inline_delivery images (deliver e calls mode fp images)"
  by (simp add: deliver_def inline_delivery_def)

lemma written_deliver_file:
  assumes "\<forall>p. writeFile_ok e p"
  shows "map fst (written (deliver e calls ''file_output'' fp images))
           = map (\<lambda>k. fp k (images ! k)) [0..<length images]"
  using write_images_all_ok[OF assms, of fp 0 images]
  by (simp add: deliver_def comp_def)


lemma create_route_calls [simp]: "upstream_calls (create_route e calls args images) = calls"
  by (simp add: create_route_def)

lemma edit_route_calls [simp]: "upstream_calls (edit_route e calls args images) = calls"
  by (simp add: edit_route_def)

lemma create_route_inline:
  assumes "arg_output args = None \<or> arg_output args = Some ''base64''"
    and "totalBase64Size images \<le> MAX_RESPONSE_SIZE"
  shows "inline_delivery images (create_route e calls (with_defaults args) images)"
  using assms by (auto simp: create_route_def effectiveOutput_def intro!: deliver_inline)

lemma edit_route_inline:
  assumes "arg_output args = None \<or> arg_output args = Some ''base64''"
    and "totalBase64Size images \<le> MAX_RESPONSE_SIZE"
  shows "inline_delivery images (edit_route e calls (with_defaults args) images)"
  using assms by (auto simp: edit_route_def effectiveOutput_def intro!: deliver_inline)

lemma totalBase64Size_create_encoded:
  "totalBase64Size (create_images fmt (map base64_encode payloads)) = sum_list (map length payloads)"
  by (induction payloads) (simp_all add: totalBase64Size_def create_images_def base64ByteLength_encode)

lemma totalBase64Size_edit_encoded:
  "totalBase64Size (edit_images (map base64_encode payloads)) = sum_list (map length payloads)"
  by (induction payloads) (simp_all add: totalBase64Size_def edit_images_def base64ByteLength_encode)

text \<open>What an invocation leaves behind, in terms of the images alone: the inline response,
  and the files and the response of the writing loop.\<close>

lemma write_images_outcome:
  "(snd (write_images e fp i imgs)
      = Inr (map (\<lambda>f. TextContent (''Image saved to: file://'' @ fst f)) (fst (write_images e fp i imgs)))
    \<and> map snd (fst (write_images e fp i imgs)) = map (\<lambda>img. base64_decode (b64 img)) imgs)
   \<or> (\<exists>path. snd (write_images e fp i imgs) = Inl (FilesystemFailure path)
         \<and> \<not> writeFile_ok e path
         \<and> length (fst (write_images e fp i imgs)) < length imgs
         \<and> map snd (fst (write_images e fp i imgs))
             = take (length (fst (write_images e fp i imgs))) (map (\<lambda>img. base64_decode (b64 img)) imgs))"
proof (induction imgs arbitrary: i)
  case Nil
  then show ?case by simp
next
  case (Cons img rest)
  show ?case
  proof (cases "writeFile_ok e (fp i img)")
    case False
    then show ?thesis by simp
  next
    case True
    obtain files result where w: "write_images e fp (i + 1) rest = (files, result)"
      by (cases "write_images e fp (i + 1) rest")
    from Cons.IH[of "i + 1"] w
    consider (complete) "result = Inr (map (\<lambda>f. TextContent (''Image saved to: file://'' @ fst f)) files)"
        "map snd files = map (\<lambda>img. base64_decode (b64 img)) rest"
      | (failed) path where "result = Inl (FilesystemFailure path)" "\<not> writeFile_ok e path"
        "length files < length rest"
        "map snd files = take (length files) (map (\<lambda>img. base64_decode (b64 img)) rest)"
      by auto
    then show ?thesis
    proof cases
      case complete
      with True w show ?thesis by simp
    next
      case failed
      with True w show ?thesis by simp
    qed
  qed
qed

lemma deliver_inline_response:
  assumes "mode \<noteq> ''file_output''"
  shows "written (deliver e calls mode fp images) = []"
    and "response (deliver e calls mode fp images)
           = Inr (map (\<lambda>img. ImageContent (b64 img) (mimeType img)) images)"
  using assms by (simp_all add: deliver_def inline_content_def)

lemma deliver_file_response:
  "(response (deliver e calls ''file_output'' fp images)
      = Inr (map (\<lambda>f. TextContent (''Image saved to: file://'' @ fst f))
               (written (deliver e calls ''file_output'' fp images)))
    \<and> map snd (written (deliver e calls ''file_output'' fp images))
        = map (\<lambda>img. base64_decode (b64 img)) images)
   \<or> (\<exists>path. response (deliver e calls ''file_output'' fp images) = Inl (FilesystemFailure path)
         \<and> \<not> writeFile_ok e path
         \<and> length (written (deliver e calls ''file_output'' fp images)) < length images
         \<and> map snd (written (deliver e calls ''file_output'' fp images))
             = take (length (written (deliver e calls ''file_output'' fp images)))
                 (map (\<lambda>img. base64_decode (b64 img)) images))"
proof (cases "write_images e fp 0 images")
  case (Pair files result)
  with write_images_outcome[of e fp 0 images] show ?thesis
    by (simp add: deliver_def)
qed

lemma decoded_create_images:
  "map (\<lambda>img. base64_decode (b64 img)) (create_images fmt (map base64_encode payloads)) = payloads"
  by (induction payloads) (simp_all add: create_images_def base64_decode_encode)

lemma decoded_edit_images:
  "map (\<lambda>img. base64_decode (b64 img)) (edit_images (map base64_encode payloads)) = payloads"
  by (induction payloads) (simp_all add: edit_images_def base64_decode_encode)

lemma inline_create_images:
  "map (\<lambda>img. ImageContent (b64 img) (mimeType img)) (create_images fmt (map base64_encode payloads))
     = map (\<lambda>payload. ImageContent (base64_encode payload)
              (if fmt = Some ''jpeg'' then ''image/jpeg''
               else if fmt = Some ''webp'' then ''image/webp'' else ''image/png'')) payloads"
  by (simp add: create_images_def comp_def)

lemma inline_edit_images:
  "map (\<lambda>img. ImageContent (b64 img) (mimeType img)) (edit_images (map base64_encode payloads))
     = map (\<lambda>payload. ImageContent (base64_encode payload) ''image/png'') payloads"
  by (simp add: edit_images_def comp_def)

lemma create_route_mode:
  assumes "arg_output args = None \<or> arg_output args = Some ''base64''"
  shows "create_route e calls (with_defaults args) images
           = deliver e calls (if totalBase64Size images > MAX_RESPONSE_SIZE then ''file_output'' else ''base64'')
               (create_filePath (create_basePath e (with_defaults args) images) (length images)) images"
  using assms by (auto simp: create_route_def effectiveOutput_def)

lemma edit_route_mode:
  assumes "arg_output args = None \<or> arg_output args = Some ''base64''"
  shows "edit_route e calls (with_defaults args) images
           = deliver e calls (if totalBase64Size images > MAX_RESPONSE_SIZE then ''file_output'' else ''base64'')
               (edit_filePath (edit_basePath e (with_defaults args)) (length images)) images"
  using assms by (auto simp: edit_route_def effectiveOutput_def)

lemma nth_edit_images: "k < length data \<Longrightarrow> ext (edit_images data ! k) = ''png''"
  by (simp add: edit_images_def)

lemma nth_create_images:
  "k < length data \<Longrightarrow> ext (create_images fmt data ! k)
     = (if fmt = Some ''jpeg'' then ''jpg'' else if fmt = Some ''webp'' then ''webp'' else ''png'')"
  by (simp add: create_images_def)

text \<open>An invocation that sent a request which the upstream service answered is the
  routing of the answer.\<close>

lemma create_image_handler_sent:
  assumes "upstream_calls (create_image_handler e args) = [Generate p]"
    and "images_generate e p = Inr data"
  shows "create_image_handler e args
           = create_route e [Generate p] args (create_images (arg_output_format args) data)"
  using assms
  by (auto simp: create_image_handler_def Let_def split: if_splits sum.splits)

lemma create_image_sent:
  assumes "upstream_calls (create_image e args) = [Generate p]"
    and "images_generate e p = Inr data"
  shows "create_image e args
           = create_route e [Generate p] (with_defaults args) (create_images (arg_output_format args) data)"
proof -
  have ok: "createImageShape_issues args = []"
    using assms(1) by (auto simp: create_image_def split: if_splits)
  then have "create_image e args = create_image_handler e (with_defaults args)"
    by (simp add: create_image_def)
  then show ?thesis
    using create_image_handler_sent[of e "with_defaults args" p data] assms by simp
qed

lemma create_image_sent_ok:
  "upstream_calls (create_image e args) = [Generate p] \<Longrightarrow> createImageShape_issues args = []"
  by (auto simp: create_image_def split: if_splits)

lemma edit_request_sent:
  assumes "upstream_calls (edit_request e args imageInput parsedSize) = [Edit q]"
    and "images_edit e q = Inr data"
  shows "edit_request e args imageInput parsedSize = edit_route e [Edit q] args (edit_images data)"
  using assms
  by (auto simp: edit_request_def Let_def split: sum.splits)

lemma edit_image_handler_sent:
  assumes "upstream_calls (edit_image_handler e args) = [Edit q]"
    and "images_edit e q = Inr data"
  shows "\<exists>validatedArgs. editImageSchema_parse args = Inr validatedArgs
           \<and> edit_image_handler e args = edit_route e [Edit q] validatedArgs (edit_images data)"
proof (cases "editImageSchema_parse args")
  case (Inl err)
  with assms(1) show ?thesis by (simp add: edit_image_handler_def)
next
  case (Inr validatedArgs)
  show ?thesis
  proof (cases "arg_image validatedArgs")
    case None
    with Inr assms(1) show ?thesis by (simp add: edit_image_handler_def)
  next
    case (Some imageInput)
    with Inr assms(1)
    have "edit_image_handler e args
            = edit_request e validatedArgs imageInput (parsed_size (arg_size validatedArgs))"
      by (auto simp: edit_image_handler_def Let_def split: if_splits)
    with assms edit_request_sent[of e validatedArgs imageInput "parsed_size (arg_size validatedArgs)" q data] Inr
    show ?thesis by simp
  qed
qed

lemma edit_image_sent:
  assumes "upstream_calls (edit_image e args) = [Edit q]"
    and "images_edit e q = Inr data"
  shows "edit_image e args = edit_route e [Edit q] (with_defaults args) (edit_images data)"
proof -
  have ok: "editImageBaseSchema_issues args = []"
    using assms(1) by (auto simp: edit_image_def split: if_splits)
  then have eq: "edit_image e args = edit_image_handler e (with_defaults args)"
    by (simp add: edit_image_def)
  with assms edit_image_handler_sent[of e "with_defaults args" q data]
  obtain validatedArgs where v: "editImageSchema_parse (with_defaults args) = Inr validatedArgs"
    "edit_image_handler e (with_defaults args) = edit_route e [Edit q] validatedArgs (edit_images data)"
    by auto
  from editImageSchema_parse_Inr[OF v(1)] have "validatedArgs = with_defaults args" by simp
  with v(2) eq show ?thesis by simp
qed

lemma edit_image_sent_ok:
  "upstream_calls (edit_image e args) = [Edit q] \<Longrightarrow> editImageBaseSchema_issues args = []"
  by (auto simp: edit_image_def split: if_splits)

section \<open>The example invocations\<close>

lemma example_env_fields [simp]:
  "images_generate (example_env data) p = Inr data"
  "images_edit (example_env data) q = Inr data"
  "writeFile_ok (example_env data) path = True"
  "mkdir_ok (example_env data) path = True"
  "homedir (example_env data) = ''/home/user''"
  "MCP_HF_WORK_DIR (example_env data) = None"
  "Date_now (example_env data) = 1700000000000"
  "readFile (example_env data) ''/in.png'' = Some [137, 80, 78, 71]"
  by (simp_all add: example_env_def)

lemma hello_encoded: "base64_encode [104, 101, 108, 108, 111] = ''aGVsbG8=''"
  by code_simp

lemma example_create_sent:
  assumes "out \<in> {None, Some ''base64'', Some ''file_output''}"
    and "fo \<in> {None, Some ''/tmp/x.png''}"
    and "fmt \<in> {None, Some ''jpeg''}"
  shows "upstream_calls (create_image (example_env data)
           (example_args\<lparr>arg_output := out, arg_file_output := fo, arg_output_format := fmt\<rparr>))
         = [Generate (example_request fmt)]"
  using assms
  by (auto simp: create_image_def create_image_handler_def example_args_def example_request_def
      create_imageParams_def parsed_size_def invalid_size_def with_defaults_def keep_given_def
      keep_nonzero_def check_defs string_defs)

lemma example_edit_sent:
  assumes "out \<in> {None, Some ''base64'', Some ''file_output''}"
    and "fo \<in> {None, Some ''/tmp/x.png''}"
    and "out = Some ''file_output'' \<longrightarrow> fo \<noteq> None"
  shows "upstream_calls (edit_image (example_env data)
           (example_args\<lparr>arg_image := Some ''/in.png'', arg_output := out, arg_file_output := fo\<rparr>))
         = [Edit example_edit_request]"
  using assms
  by (auto simp: edit_image_def edit_image_handler_def editImageSchema_parse_def edit_request_def
      inputToFile_def resolve_mask_def split_on_absent
      example_args_def example_edit_request_def
      edit_editParams_def parsed_size_def invalid_size_def with_defaults_def keep_given_def
      keep_nonzero_def check_defs string_defs)

lemma tmp_x_png:
  "path_dir (path_parse ''/tmp/x.png'') = ''/tmp''"
  "path_name (path_parse ''/tmp/x.png'') = ''x''"
  "path_ext (path_parse ''/tmp/x.png'') = ''.png''"
  by (simp_all add: path_defs)

lemma tmp_joins:
  "path_join [''/tmp'', ''x_1.png''] = ''/tmp/x_1.png''"
  "path_join [''/tmp'', ''x_2.png''] = ''/tmp/x_2.png''"
  "path_join [''/tmp'', ''x_3.png''] = ''/tmp/x_3.png''"
  "path_join [''/tmp'', ''x.jpg''] = ''/tmp/x.jpg''"
  by (simp_all add: path_defs)

lemma show_small: "show_nat 1 = ''1''" "show_nat 2 = ''2''" "show_nat 3 = ''3''"
  by (simp_all add: show_nat.simps digit_char_def)

lemma show_suc:
  "show_nat (Suc 0) = ''1''" "show_nat (Suc (Suc 0)) = ''2''" "show_nat (Suc (Suc (Suc 0))) = ''3''"
  using show_small by (simp_all add: numeral_2_eq_2 numeral_3_eq_3)



lemma small_total:
  "totalBase64Size (create_images None [''aGVsbG8='']) \<le> MAX_RESPONSE_SIZE"
  "totalBase64Size (edit_images [''aGVsbG8='']) \<le> MAX_RESPONSE_SIZE"
  by (simp_all add: totalBase64Size_def create_images_def edit_images_def base64ByteLength_def
      MAX_RESPONSE_SIZE_def)

section \<open>Argument checks\<close>

text \<open>
  C6. Every \<open>create-image\<close> invocation with background \<open>transparent\<close> and an output
  format other than \<open>png\<close> and \<open>webp\<close> fails with an InvalidParameter error, and no request
  is sent upstream.
\<close>

theorem create_image_transparent:
  assumes "arg_background args = Some ''transparent''"
    and "arg_output_format args = Some f" and "f \<noteq> ''png''" and "f \<noteq> ''webp''"
  shows "upstream_calls (create_image e args) = []
       \<and> (\<exists>fields. response (create_image e args) = Inl (InvalidParameter fields))"
proof (cases "createImageShape_issues args = []")
  case False
  then show ?thesis by (simp add: create_image_def)
next
  case True
  then have "in_enum [''png'', ''jpeg'', ''webp''] (arg_output_format args)"
    by (simp add: createImageShape_issues_def issues_empty)
  with assms(2) have "f \<noteq> []"
    by (auto simp: in_enum_def)
  with True assms show ?thesis
    by (simp add: create_image_def create_image_handler_def Let_def)
qed

theorem create_image_transparent_witness:
  "upstream_calls (create_image (example_env [])
      (example_args\<lparr>arg_background := Some ''transparent'', arg_output_format := Some ''jpeg''\<rparr>)) = []
   \<and> (\<exists>fields. response (create_image (example_env [])
      (example_args\<lparr>arg_background := Some ''transparent'', arg_output_format := Some ''jpeg''\<rparr>))
        = Inl (InvalidParameter fields))"
  using create_image_transparent[of
      "example_args\<lparr>arg_background := Some ''transparent'', arg_output_format := Some ''jpeg''\<rparr>"
      "''jpeg''" "example_env []"]
  by (simp add: example_args_def)


text \<open>
  What the code does check: \<open>edit-image\<close> with output \<open>file_output\<close> and no
  \<open>file_output\<close> argument fails with InvalidParameter; both tools fail with
  InvalidParameter on a \<open>file_output\<close> that is not empty and not absolute. No request is
  sent upstream in either case.
\<close>

lemma edit_image_missing_file_output:
  assumes "arg_output args = Some ''file_output''" and "arg_file_output args = None"
  shows "upstream_calls (edit_image e args) = []
       \<and> (\<exists>fields. response (edit_image e args) = Inl (InvalidParameter fields))"
proof (cases "editImageBaseSchema_issues args = []")
  case False
  then show ?thesis by (simp add: edit_image_def)
next
  case True
  have "\<not> file_output_refinement (with_defaults args)"
    using assms by (simp add: file_output_refinement_def)
  then have "editImageSchema_parse (with_defaults args) = Inl (InvalidParameter [''file_output''])"
    using editImageBaseSchema_issues_defaults[OF True] by (simp add: editImageSchema_parse_def)
  then show ?thesis using True by (simp add: edit_image_def edit_image_handler_def)
qed

theorem file_output_validation:
  "(arg_output args = Some ''file_output'' \<and> arg_file_output args = None \<longrightarrow>
      upstream_calls (edit_image e args) = []
      \<and> (\<exists>fields. response (edit_image e args) = Inl (InvalidParameter fields)))
   \<and> (arg_file_output args = Some p \<and> p \<noteq> [] \<and> \<not> startsWith p ''/'' \<and> \<not> drive_letter_path p \<longrightarrow>
      upstream_calls (edit_image e args) = []
      \<and> (\<exists>fields. response (edit_image e args) = Inl (InvalidParameter fields))
      \<and> upstream_calls (create_image e args) = []
      \<and> (\<exists>fields. response (create_image e args) = Inl (InvalidParameter fields)))"
proof -
  have rel: "upstream_calls (edit_image e args) = []
      \<and> (\<exists>fields. response (edit_image e args) = Inl (InvalidParameter fields))
      \<and> upstream_calls (create_image e args) = []
      \<and> (\<exists>fields. response (create_image e args) = Inl (InvalidParameter fields))"
    if a: "arg_file_output args = Some p" "p \<noteq> []" "\<not> startsWith p ''/''" "\<not> drive_letter_path p"
  proof -
    have "\<not> absolutePathCheck (arg_file_output args)"
      using not_absolute[OF a(2,3,4)] a(1) by simp
    then show ?thesis
      using create_shape_rejects_relative[of args] edit_shape_rejects_relative[of args]
      by (simp add: create_image_def edit_image_def)
  qed
  from rel edit_image_missing_file_output[of args e] show ?thesis by blast
qed

theorem file_output_validation_witness:
  "upstream_calls (edit_image (example_env [''aGVsbG8=''])
      (example_args\<lparr>arg_image := Some ''/in.png'', arg_output := Some ''file_output''\<rparr>)) = []
   \<and> (\<exists>fields. response (edit_image (example_env [''aGVsbG8=''])
      (example_args\<lparr>arg_image := Some ''/in.png'', arg_output := Some ''file_output''\<rparr>))
        = Inl (InvalidParameter fields))
   \<and> upstream_calls (create_image (example_env [''aGVsbG8=''])
      (example_args\<lparr>arg_output := Some ''file_output'', arg_file_output := Some ''out/x.png''\<rparr>)) = []
   \<and> (\<exists>fields. response (create_image (example_env [''aGVsbG8=''])
      (example_args\<lparr>arg_output := Some ''file_output'', arg_file_output := Some ''out/x.png''\<rparr>))
        = Inl (InvalidParameter fields))"
proof -
  let ?eargs = "example_args\<lparr>arg_image := Some ''/in.png'', arg_output := Some ''file_output''\<rparr>"
  let ?cargs = "example_args\<lparr>arg_output := Some ''file_output'', arg_file_output := Some ''out/x.png''\<rparr>"
  have a: "arg_output ?eargs = Some ''file_output''" "arg_file_output ?eargs = None"
    "arg_file_output ?cargs = Some ''out/x.png''"
    by (simp_all add: example_args_def)
  have b: "''out/x.png'' \<noteq> []" "\<not> startsWith ''out/x.png'' ''/''" "\<not> drive_letter_path ''out/x.png''"
    by (simp_all add: startsWith_def drive_letter_path_def)
  show ?thesis
    using a b file_output_validation[of ?eargs "example_env [''aGVsbG8='']" "''x''"]
      file_output_validation[of ?cargs "example_env [''aGVsbG8='']" "''out/x.png''"]
    by blast
qed

text \<open>
  Both schemas list the four valid sizes, so an invocation with any other size (an aspect
  ratio among them) is rejected with InvalidParameter before the handler runs.
\<close>

theorem size_tokens_rejected_by_schema:
  "arg_size args = Some s \<and> s \<notin> set validSizes \<longrightarrow>
     upstream_calls (create_image e args) = []
     \<and> (\<exists>fields. response (create_image e args) = Inl (InvalidParameter fields))
     \<and> upstream_calls (edit_image e args) = []
     \<and> (\<exists>fields. response (edit_image e args) = Inl (InvalidParameter fields))"
  using create_shape_rejects_size[of args s] edit_shape_rejects_size[of args s]
  by (simp add: create_image_def edit_image_def)

theorem size_tokens_rejected_by_schema_witness:
  "''16:9'' \<notin> set validSizes
   \<and> upstream_calls (create_image (example_env [''aGVsbG8='']) (example_args\<lparr>arg_size := Some ''16:9''\<rparr>)) = []
   \<and> (\<exists>fields. response (create_image (example_env [''aGVsbG8=''])
         (example_args\<lparr>arg_size := Some ''16:9''\<rparr>)) = Inl (InvalidParameter fields))"
proof -
  have a: "arg_size (example_args\<lparr>arg_size := Some ''16:9''\<rparr>) = Some ''16:9''"
    "''16:9'' \<notin> set validSizes"
    by (simp_all add: example_args_def validSizes_def)
  show ?thesis
    using a size_tokens_rejected_by_schema[of "example_args\<lparr>arg_size := Some ''16:9''\<rparr>" "''16:9''"
        "example_env [''aGVsbG8='']"]
    by blast
qed

section \<open>Image and mask inputs\<close>

lemma edit_image_handler_no_call_image:
  assumes "arg_image args = Some img" and "\<not> absolutePathCheck (Some img)" and "\<not> base64Check (Some img)"
  shows "upstream_calls (edit_image_handler e args) = []"
proof (cases "editImageSchema_parse args")
  case (Inl err)
  then show ?thesis by (simp add: edit_image_handler_def)
next
  case (Inr validatedArgs)
  then have "validatedArgs = with_defaults args" by (rule editImageSchema_parse_Inr)
  with Inr assms show ?thesis by (simp add: edit_image_handler_def)
qed

lemma edit_image_handler_no_call_mask:
  assumes "arg_mask args = Some m" and "m \<noteq> []"
    and "\<not> absolutePathCheck (Some m)" and "\<not> base64Check (Some m)"
  shows "upstream_calls (edit_image_handler e args) = []"
proof (cases "editImageSchema_parse args")
  case (Inl err)
  then show ?thesis by (simp add: edit_image_handler_def)
next
  case (Inr validatedArgs)
  then have "validatedArgs = with_defaults args" by (rule editImageSchema_parse_Inr)
  with Inr assms show ?thesis
    by (simp add: edit_image_handler_def given_def split: option.split)
qed

text \<open>
  C5, as the code has it. An \<open>edit-image\<close> invocation whose image is not empty, has no
  leading \<open>/\<close>, is no drive-letter path and fails the base64 check sends no request
  upstream, and when its arguments pass the schema it fails with InvalidInput naming
  \<open>image\<close>. The same holds for a mask that is not empty, with \<open>mask\<close> named, when the image
  passes one of the two checks.
\<close>

theorem edit_image_rejects_unclassified_input:
  "(arg_image args = Some img \<and> img \<noteq> [] \<and> \<not> startsWith img ''/'' \<and> \<not> drive_letter_path img
      \<and> \<not> base64Check (Some img) \<longrightarrow>
      upstream_calls (edit_image e args) = []
      \<and> (editImageBaseSchema_issues args = [] \<and> file_output_refinement (with_defaults args) \<longrightarrow>
           response (edit_image e args) = Inl (InvalidInput ''image'')))
   \<and> (arg_image args = Some img \<and> (absolutePathCheck (Some img) \<or> base64Check (Some img))
      \<and> arg_mask args = Some m \<and> m \<noteq> [] \<and> \<not> startsWith m ''/'' \<and> \<not> drive_letter_path m
      \<and> \<not> base64Check (Some m) \<longrightarrow>
      upstream_calls (edit_image e args) = []
      \<and> (editImageBaseSchema_issues args = [] \<and> file_output_refinement (with_defaults args) \<longrightarrow>
           response (edit_image e args) = Inl (InvalidInput ''mask'')))"
proof -
  have image: "upstream_calls (edit_image e args) = []
      \<and> (editImageBaseSchema_issues args = [] \<and> file_output_refinement (with_defaults args) \<longrightarrow>
           response (edit_image e args) = Inl (InvalidInput ''image''))"
    if a: "arg_image args = Some img" "img \<noteq> []" "\<not> startsWith img ''/''" "\<not> drive_letter_path img"
      "\<not> base64Check (Some img)"
  proof -
    have na: "\<not> absolutePathCheck (Some img)"
      using a by (simp add: absolutePathCheck_def)
    have calls: "upstream_calls (edit_image e args) = []"
      using edit_image_handler_no_call_image[of "with_defaults args" img e] a(1) na a(5)
      by (simp add: edit_image_def)
    have "response (edit_image e args) = Inl (InvalidInput ''image'')"
      if ok: "editImageBaseSchema_issues args = []" "file_output_refinement (with_defaults args)"
      using editImageSchema_parse_ok[OF ok] ok(1) a(1) na a(5)
      by (simp add: edit_image_def edit_image_handler_def rejected_def)
    with calls show ?thesis by blast
  qed
  have mask: "upstream_calls (edit_image e args) = []
      \<and> (editImageBaseSchema_issues args = [] \<and> file_output_refinement (with_defaults args) \<longrightarrow>
           response (edit_image e args) = Inl (InvalidInput ''mask''))"
    if a: "arg_image args = Some img" "absolutePathCheck (Some img) \<or> base64Check (Some img)"
      "arg_mask args = Some m" "m \<noteq> []" "\<not> startsWith m ''/''" "\<not> drive_letter_path m"
      "\<not> base64Check (Some m)"
  proof -
    have na: "\<not> absolutePathCheck (Some m)"
      using a by (simp add: absolutePathCheck_def)
    have calls: "upstream_calls (edit_image e args) = []"
      using edit_image_handler_no_call_mask[of "with_defaults args" m e] a(3,4) na a(7)
      by (simp add: edit_image_def)
    have "response (edit_image e args) = Inl (InvalidInput ''mask'')"
      if ok: "editImageBaseSchema_issues args = []" "file_output_refinement (with_defaults args)"
      using editImageSchema_parse_ok[OF ok] ok(1) a(1,2,3,4) na a(7)
      by (auto simp: edit_image_def edit_image_handler_def rejected_def given_def)
    with calls show ?thesis by blast
  qed
  from image mask show ?thesis by blast
qed

theorem edit_image_rejects_unclassified_input_witness:
  "upstream_calls (edit_image (example_env []) (example_args\<lparr>arg_image := Some ''not-a-path-not-base64!!''\<rparr>)) = []
   \<and> response (edit_image (example_env []) (example_args\<lparr>arg_image := Some ''not-a-path-not-base64!!''\<rparr>))
       = Inl (InvalidInput ''image'')
   \<and> upstream_calls (edit_image (example_env [])
        (example_args\<lparr>arg_image := Some ''/in.png'', arg_mask := Some ''mask?''\<rparr>)) = []
   \<and> response (edit_image (example_env [])
        (example_args\<lparr>arg_image := Some ''/in.png'', arg_mask := Some ''mask?''\<rparr>))
       = Inl (InvalidInput ''mask'')"
proof -
  have 1: "editImageBaseSchema_issues (example_args\<lparr>arg_image := Some ''not-a-path-not-base64!!''\<rparr>) = []"
    "file_output_refinement (with_defaults (example_args\<lparr>arg_image := Some ''not-a-path-not-base64!!''\<rparr>))"
    "\<not> startsWith ''not-a-path-not-base64!!'' ''/''" "\<not> drive_letter_path ''not-a-path-not-base64!!''"
    "\<not> base64Check (Some ''not-a-path-not-base64!!'')"
    by (simp_all add: example_args_def with_defaults_def check_defs string_defs)
  have 2: "editImageBaseSchema_issues (example_args\<lparr>arg_image := Some ''/in.png'', arg_mask := Some ''mask?''\<rparr>) = []"
    "file_output_refinement (with_defaults (example_args\<lparr>arg_image := Some ''/in.png'', arg_mask := Some ''mask?''\<rparr>))"
    "absolutePathCheck (Some ''/in.png'')"
    "\<not> startsWith ''mask?'' ''/''" "\<not> drive_letter_path ''mask?''"
    "\<not> base64Check (Some ''mask?'')"
    by (simp_all add: example_args_def with_defaults_def check_defs string_defs)
  show ?thesis
    using 1 2
      edit_image_rejects_unclassified_input[of "example_args\<lparr>arg_image := Some ''not-a-path-not-base64!!''\<rparr>"
        "''not-a-path-not-base64!!''" "example_env []" "''x''"]
      edit_image_rejects_unclassified_input[of "example_args\<lparr>arg_image := Some ''/in.png'', arg_mask := Some ''mask?''\<rparr>"
        "''/in.png''" "example_env []" "''mask?''"]
    by (simp add: example_args_def)
qed

text \<open>
  C5 as stated fails: the schema is checked first. With output \<open>file_output\<close> and no
  \<open>file_output\<close> argument, an image that is neither a path nor base64 makes the invocation
  fail with InvalidParameter naming \<open>file_output\<close>, not with InvalidInput.
\<close>

theorem edit_image_validation_order:
  "\<not> startsWith ''not-a-path-not-base64!!'' ''/''
   \<and> \<not> drive_letter_path ''not-a-path-not-base64!!''
   \<and> \<not> base64Check (Some ''not-a-path-not-base64!!'')
   \<and> response (edit_image (example_env [])
        (example_args\<lparr>arg_image := Some ''not-a-path-not-base64!!'', arg_output := Some ''file_output''\<rparr>))
       = Inl (InvalidParameter [''file_output''])"
  by (simp add: edit_image_def edit_image_handler_def editImageSchema_parse_def example_args_def
      with_defaults_def rejected_def check_defs string_defs)

section \<open>The size threshold\<close>

text \<open>
  C1. Inline delivery is requested and the upstream service answers the request with the
  base64 texts of the buffers \<open>payloads\<close>. If the lengths of the buffers sum to at most
  1,048,576, nothing is written and the response holds, for each payload in order, its base64
  text with the MIME type of the requested format. If they sum to more, the response is
  overridden to files: the files written hold the payloads, in order, and the response holds
  one text entry per file, naming it; or a write was refused, the response is the failure
  at that path, and the files written hold the payloads before it. This holds for
  \<open>create-image\<close> and for \<open>edit-image\<close>.
\<close>

theorem inline_request_threshold:
  assumes "arg_output args = Some ''base64''"
  shows "(upstream_calls (create_image e args) = [Generate p]
            \<and> images_generate e p = Inr (map base64_encode payloads) \<longrightarrow>
          (sum_list (map length payloads) \<le> 1048576 \<longrightarrow>
             written (create_image e args) = []
             \<and> response (create_image e args)
                 = Inr (map (\<lambda>payload. ImageContent (base64_encode payload)
                          (if arg_output_format args = Some ''jpeg'' then ''image/jpeg''
                           else if arg_output_format args = Some ''webp'' then ''image/webp''
                           else ''image/png'')) payloads))
          \<and> (sum_list (map length payloads) > 1048576 \<longrightarrow>
               (response (create_image e args)
                  = Inr (map (\<lambda>f. TextContent (''Image saved to: file://'' @ fst f))
                           (written (create_image e args)))
                \<and> map snd (written (create_image e args)) = payloads)
               \<or> (\<exists>path. response (create_image e args) = Inl (FilesystemFailure path)
                     \<and> \<not> writeFile_ok e path
                     \<and> length (written (create_image e args)) < length payloads
                     \<and> map snd (written (create_image e args))
                         = take (length (written (create_image e args))) payloads)))
       \<and> (upstream_calls (edit_image e args) = [Edit q]
            \<and> images_edit e q = Inr (map base64_encode payloads) \<longrightarrow>
          (sum_list (map length payloads) \<le> 1048576 \<longrightarrow>
             written (edit_image e args) = []
             \<and> response (edit_image e args)
                 = Inr (map (\<lambda>payload. ImageContent (base64_encode payload) ''image/png'') payloads))
          \<and> (sum_list (map length payloads) > 1048576 \<longrightarrow>
               (response (edit_image e args)
                  = Inr (map (\<lambda>f. TextContent (''Image saved to: file://'' @ fst f))
                           (written (edit_image e args)))
                \<and> map snd (written (edit_image e args)) = payloads)
               \<or> (\<exists>path. response (edit_image e args) = Inl (FilesystemFailure path)
                     \<and> \<not> writeFile_ok e path
                     \<and> length (written (edit_image e args)) < length payloads
                     \<and> map snd (written (edit_image e args))
                         = take (length (written (edit_image e args))) payloads)))"
proof -
  have req: "arg_output args = None \<or> arg_output args = Some ''base64''"
    using assms by simp
  let ?data = "map base64_encode payloads"
  let ?total = "sum_list (map length payloads)"
  let ?entry = "\<lambda>f::string \<times> byte list. TextContent (''Image saved to: file://'' @ fst f)"
  have create: "(?total \<le> 1048576 \<longrightarrow>
         written (create_image e args) = []
         \<and> response (create_image e args)
             = Inr (map (\<lambda>payload. ImageContent (base64_encode payload)
                      (if arg_output_format args = Some ''jpeg'' then ''image/jpeg''
                       else if arg_output_format args = Some ''webp'' then ''image/webp''
                       else ''image/png'')) payloads))
      \<and> (?total > 1048576 \<longrightarrow>
           (response (create_image e args) = Inr (map ?entry (written (create_image e args)))
            \<and> map snd (written (create_image e args)) = payloads)
           \<or> (\<exists>path. response (create_image e args) = Inl (FilesystemFailure path)
                 \<and> \<not> writeFile_ok e path
                 \<and> length (written (create_image e args)) < length payloads
                 \<and> map snd (written (create_image e args))
                     = take (length (written (create_image e args))) payloads))"
    if sent: "upstream_calls (create_image e args) = [Generate p]"
      and answer: "images_generate e p = Inr ?data"
  proof -
    let ?images = "create_images (arg_output_format args) ?data"
    let ?fp = "create_filePath (create_basePath e (with_defaults args) ?images) (length ?images)"
    have total: "totalBase64Size ?images = ?total"
      by (rule totalBase64Size_create_encoded)
    have eq: "create_image e args
        = deliver e [Generate p] (if ?total > 1048576 then ''file_output'' else ''base64'') ?fp ?images"
      using create_image_sent[OF sent answer] create_route_mode[OF req, of e "[Generate p]" ?images]
      by (simp add: total MAX_RESPONSE_SIZE_def)
    have len: "length ?images = length payloads"
      by (simp add: create_images_def)
    have small: ?thesis if "?total \<le> 1048576"
      using that eq deliver_inline_response[of "''base64''" e "[Generate p]" ?fp ?images]
      by (simp add: inline_create_images)
    have large: ?thesis if "?total > 1048576"
      using that eq deliver_file_response[of e "[Generate p]" ?fp ?images]
      by (simp add: decoded_create_images len)
    show ?thesis
    proof (cases "?total \<le> 1048576")
      case True
      then show ?thesis by (rule small)
    next
      case False
      then have "?total > 1048576" by simp
      then show ?thesis by (rule large)
    qed
  qed
  have edit: "(?total \<le> 1048576 \<longrightarrow>
         written (edit_image e args) = []
         \<and> response (edit_image e args)
             = Inr (map (\<lambda>payload. ImageContent (base64_encode payload) ''image/png'') payloads))
      \<and> (?total > 1048576 \<longrightarrow>
           (response (edit_image e args) = Inr (map ?entry (written (edit_image e args)))
            \<and> map snd (written (edit_image e args)) = payloads)
           \<or> (\<exists>path. response (edit_image e args) = Inl (FilesystemFailure path)
                 \<and> \<not> writeFile_ok e path
                 \<and> length (written (edit_image e args)) < length payloads
                 \<and> map snd (written (edit_image e args))
                     = take (length (written (edit_image e args))) payloads))"
    if sent: "upstream_calls (edit_image e args) = [Edit q]"
      and answer: "images_edit e q = Inr ?data"
  proof -
    let ?images = "edit_images ?data"
    let ?fp = "edit_filePath (edit_basePath e (with_defaults args)) (length ?images)"
    have total: "totalBase64Size ?images = ?total"
      by (rule totalBase64Size_edit_encoded)
    have eq: "edit_image e args
        = deliver e [Edit q] (if ?total > 1048576 then ''file_output'' else ''base64'') ?fp ?images"
      using edit_image_sent[OF sent answer] edit_route_mode[OF req, of e "[Edit q]" ?images]
      by (simp add: total MAX_RESPONSE_SIZE_def)
    have len: "length ?images = length payloads"
      by (simp add: edit_images_def)
    have small: ?thesis if "?total \<le> 1048576"
      using that eq deliver_inline_response[of "''base64''" e "[Edit q]" ?fp ?images]
      by (simp add: inline_edit_images)
    have large: ?thesis if "?total > 1048576"
      using that eq deliver_file_response[of e "[Edit q]" ?fp ?images]
      by (simp add: decoded_edit_images len)
    show ?thesis
    proof (cases "?total \<le> 1048576")
      case True
      then show ?thesis by (rule small)
    next
      case False
      then have "?total > 1048576" by simp
      then show ?thesis by (rule large)
    qed
  qed
  from create edit show ?thesis by blast
qed

theorem inline_request_threshold_witness:
  "written (create_image (example_env (map base64_encode [[104, 101, 108, 108, 111]]))
       (example_args\<lparr>arg_output := Some ''base64''\<rparr>)) = []
   \<and> response (create_image (example_env (map base64_encode [[104, 101, 108, 108, 111]]))
       (example_args\<lparr>arg_output := Some ''base64''\<rparr>))
       = Inr [ImageContent ''aGVsbG8='' ''image/png'']
   \<and> map snd (written (create_image (example_env (map base64_encode [replicate 1048577 0]))
       (example_args\<lparr>arg_output := Some ''base64''\<rparr>))) = [replicate 1048577 0]
   \<and> response (create_image (example_env (map base64_encode [replicate 1048577 0]))
       (example_args\<lparr>arg_output := Some ''base64''\<rparr>))
       = Inr (map (\<lambda>f. TextContent (''Image saved to: file://'' @ fst f))
           (written (create_image (example_env (map base64_encode [replicate 1048577 0]))
              (example_args\<lparr>arg_output := Some ''base64''\<rparr>))))
   \<and> written (edit_image (example_env (map base64_encode [[104, 101, 108, 108, 111]]))
       (example_args\<lparr>arg_image := Some ''/in.png'', arg_output := Some ''base64''\<rparr>)) = []
   \<and> response (edit_image (example_env (map base64_encode [[104, 101, 108, 108, 111]]))
       (example_args\<lparr>arg_image := Some ''/in.png'', arg_output := Some ''base64''\<rparr>))
       = Inr [ImageContent ''aGVsbG8='' ''image/png'']
   \<and> map snd (written (edit_image (example_env (map base64_encode [replicate 1048577 0]))
       (example_args\<lparr>arg_image := Some ''/in.png'', arg_output := Some ''base64''\<rparr>)))
       = [replicate 1048577 0]
   \<and> response (edit_image (example_env (map base64_encode [replicate 1048577 0]))
       (example_args\<lparr>arg_image := Some ''/in.png'', arg_output := Some ''base64''\<rparr>))
       = Inr (map (\<lambda>f. TextContent (''Image saved to: file://'' @ fst f))
           (written (edit_image (example_env (map base64_encode [replicate 1048577 0]))
              (example_args\<lparr>arg_image := Some ''/in.png'', arg_output := Some ''base64''\<rparr>))))"
proof -
  let ?small = "[[104, 101, 108, 108, 111]] :: byte list list"
  let ?large = "[replicate 1048577 0] :: byte list list"
  let ?cargs = "example_args\<lparr>arg_output := Some ''base64''\<rparr>"
  let ?eargs = "example_args\<lparr>arg_image := Some ''/in.png'', arg_output := Some ''base64''\<rparr>"
  let ?entry = "\<lambda>f::string \<times> byte list. TextContent (''Image saved to: file://'' @ fst f)"
  have req: "arg_output ?cargs = Some ''base64''" "arg_output ?eargs = Some ''base64''"
    and fmt: "arg_output_format ?cargs = None"
    by (simp_all add: example_args_def)
  have sizes: "sum_list (map length ?small) \<le> 1048576" "sum_list (map length ?large) > 1048576"
    by simp_all
  have c: "upstream_calls (create_image (example_env data) ?cargs) = [Generate (example_request None)]" for data
    using example_create_sent[of "Some ''base64''" None None data] by (simp add: example_args_def)
  have d: "upstream_calls (edit_image (example_env data) ?eargs) = [Edit example_edit_request]" for data
    using example_edit_sent[of "Some ''base64''" None data] by (simp add: example_args_def)
  have g: "images_generate (example_env data) (example_request None) = Inr data"
    "images_edit (example_env data) example_edit_request = Inr data" for data
    by simp_all
  have w: "\<forall>path. writeFile_ok (example_env data) path" for data
    by simp
  note small = inline_request_threshold[OF req(1), of "example_env (map base64_encode ?small)"
      "example_request None" ?small example_edit_request]
  note large = inline_request_threshold[OF req(1), of "example_env (map base64_encode ?large)"
      "example_request None" ?large example_edit_request]
  note small' = inline_request_threshold[OF req(2), of "example_env (map base64_encode ?small)"
      "example_request None" ?small example_edit_request]
  note large' = inline_request_threshold[OF req(2), of "example_env (map base64_encode ?large)"
      "example_request None" ?large example_edit_request]
  have 1: "written (create_image (example_env (map base64_encode ?small)) ?cargs) = []
      \<and> response (create_image (example_env (map base64_encode ?small)) ?cargs)
          = Inr (map (\<lambda>payload. ImageContent (base64_encode payload)
                   (if arg_output_format ?cargs = Some ''jpeg'' then ''image/jpeg''
                    else if arg_output_format ?cargs = Some ''webp'' then ''image/webp''
                    else ''image/png'')) ?small)"
    using small c g(1) sizes(1) by blast
  have 2: "map snd (written (create_image (example_env (map base64_encode ?large)) ?cargs)) = ?large
      \<and> response (create_image (example_env (map base64_encode ?large)) ?cargs)
          = Inr (map ?entry (written (create_image (example_env (map base64_encode ?large)) ?cargs)))"
    using large c g(1) sizes(2) w by blast
  have 3: "written (edit_image (example_env (map base64_encode ?small)) ?eargs) = []
      \<and> response (edit_image (example_env (map base64_encode ?small)) ?eargs)
          = Inr (map (\<lambda>payload. ImageContent (base64_encode payload) ''image/png'') ?small)"
    using small' d g(2) sizes(1) by blast
  have 4: "map snd (written (edit_image (example_env (map base64_encode ?large)) ?eargs)) = ?large
      \<and> response (edit_image (example_env (map base64_encode ?large)) ?eargs)
          = Inr (map ?entry (written (edit_image (example_env (map base64_encode ?large)) ?eargs)))"
    using large' d g(2) sizes(2) w by blast
  have inline_create: "written (create_image (example_env (map base64_encode ?small)) ?cargs) = []
      \<and> response (create_image (example_env (map base64_encode ?small)) ?cargs)
          = Inr [ImageContent ''aGVsbG8='' ''image/png'']"
    using 1 by (simp add: fmt hello_encoded del: base64_encode.simps)
  have inline_edit: "written (edit_image (example_env (map base64_encode ?small)) ?eargs) = []
      \<and> response (edit_image (example_env (map base64_encode ?small)) ?eargs)
          = Inr [ImageContent ''aGVsbG8='' ''image/png'']"
    using 3 by (simp add: hello_encoded del: base64_encode.simps)
  from inline_create 2 inline_edit 4 show ?thesis by blast
qed

lemma omitted_output_create:
  assumes "arg_output args = None"
  shows "create_image e args = create_image e (args\<lparr>arg_output := Some ''base64''\<rparr>)"
proof -
  have "createImageShape_issues (args\<lparr>arg_output := Some ''base64''\<rparr>) = createImageShape_issues args"
    using assms by (simp add: createImageShape_issues_def in_enum_def)
  moreover have "with_defaults (args\<lparr>arg_output := Some ''base64''\<rparr>) = with_defaults args"
    using assms by (simp add: with_defaults_def)
  ultimately show ?thesis by (simp add: create_image_def)
qed

lemma omitted_output_edit:
  assumes "arg_output args = None"
  shows "edit_image e args = edit_image e (args\<lparr>arg_output := Some ''base64''\<rparr>)"
proof -
  have "editImageBaseSchema_issues (args\<lparr>arg_output := Some ''base64''\<rparr>) = editImageBaseSchema_issues args"
    using assms by (simp add: editImageBaseSchema_issues_def in_enum_def)
  moreover have "with_defaults (args\<lparr>arg_output := Some ''base64''\<rparr>) = with_defaults args"
    using assms by (simp add: with_defaults_def)
  ultimately show ?thesis by (simp add: edit_image_def)
qed

lemma create_image_inline_unless:
  assumes "upstream_calls (create_image e args) = [Generate p]" and "images_generate e p = Inr data"
    and "arg_output args \<noteq> Some ''file_output''"
    and "totalBase64Size (create_images (arg_output_format args) data) \<le> MAX_RESPONSE_SIZE"
  shows "inline_delivery (create_images (arg_output_format args) data) (create_image e args)"
proof -
  have "arg_output args = None \<or> arg_output args = Some ''base64''"
    using createImageShape_output[OF create_image_sent_ok[OF assms(1)]] assms(3) by blast
  then show ?thesis
    using create_image_sent[OF assms(1,2)] create_route_inline assms(4) by simp
qed

lemma edit_image_inline_unless:
  assumes "upstream_calls (edit_image e args) = [Edit q]" and "images_edit e q = Inr data"
    and "arg_output args \<noteq> Some ''file_output''"
    and "totalBase64Size (edit_images data) \<le> MAX_RESPONSE_SIZE"
  shows "inline_delivery (edit_images data) (edit_image e args)"
proof -
  have "arg_output args = None \<or> arg_output args = Some ''base64''"
    using editImageBaseSchema_output[OF edit_image_sent_ok[OF assms(1)]] assms(3) by blast
  then show ?thesis
    using edit_image_sent[OF assms(1,2)] edit_route_inline assms(4) by simp
qed

text \<open>
  C10. An invocation without the \<open>output\<close> argument is the invocation with output
  \<open>base64\<close>. And whenever the output argument is not \<open>file_output\<close> and the sizes of the
  returned payloads sum to at most 1,048,576, the response is delivered inline: there is no
  file delivery without a request for it or a total above the threshold.
\<close>

theorem omitted_output_defaults_to_inline:
  "(arg_output args = None \<longrightarrow>
      create_image e args = create_image e (args\<lparr>arg_output := Some ''base64''\<rparr>)
      \<and> edit_image e args = edit_image e (args\<lparr>arg_output := Some ''base64''\<rparr>))
   \<and> (upstream_calls (create_image e args) = [Generate p] \<and> images_generate e p = Inr data
        \<and> arg_output args \<noteq> Some ''file_output''
        \<and> totalBase64Size (create_images (arg_output_format args) data) \<le> MAX_RESPONSE_SIZE \<longrightarrow>
      inline_delivery (create_images (arg_output_format args) data) (create_image e args))
   \<and> (upstream_calls (edit_image e args) = [Edit q] \<and> images_edit e q = Inr data
        \<and> arg_output args \<noteq> Some ''file_output''
        \<and> totalBase64Size (edit_images data) \<le> MAX_RESPONSE_SIZE \<longrightarrow>
      inline_delivery (edit_images data) (edit_image e args))"
  using omitted_output_create[of args e] omitted_output_edit[of args e]
    create_image_inline_unless[of e args p data] edit_image_inline_unless[of e args q data]
  by blast

theorem omitted_output_defaults_to_inline_witness:
  "create_image (example_env [''aGVsbG8='']) example_args
     = create_image (example_env [''aGVsbG8='']) (example_args\<lparr>arg_output := Some ''base64''\<rparr>)
   \<and> inline_delivery (create_images None [''aGVsbG8=''])
        (create_image (example_env [''aGVsbG8='']) example_args)
   \<and> inline_delivery (edit_images [''aGVsbG8=''])
        (edit_image (example_env [''aGVsbG8='']) (example_args\<lparr>arg_image := Some ''/in.png''\<rparr>))"
proof -
  have none: "arg_output example_args = None" "arg_output_format example_args = None"
    "arg_output (example_args\<lparr>arg_image := Some ''/in.png''\<rparr>) = None"
    by (simp_all add: example_args_def)
  have c: "upstream_calls (create_image (example_env [''aGVsbG8='']) example_args)
      = [Generate (example_request None)]"
    using example_create_sent[of None None None "[''aGVsbG8='']"] by (simp add: example_args_def)
  have d: "upstream_calls (edit_image (example_env [''aGVsbG8='']) (example_args\<lparr>arg_image := Some ''/in.png''\<rparr>))
      = [Edit example_edit_request]"
    using example_edit_sent[of None None "[''aGVsbG8='']"] by (simp add: example_args_def)
  note create = omitted_output_defaults_to_inline[of example_args "example_env [''aGVsbG8='']"
      "example_request None" "[''aGVsbG8='']" example_edit_request]
  note edit = omitted_output_defaults_to_inline[of "example_args\<lparr>arg_image := Some ''/in.png''\<rparr>"
      "example_env [''aGVsbG8='']" "example_request None" "[''aGVsbG8='']" example_edit_request]
  have g: "images_generate (example_env [''aGVsbG8='']) (example_request None) = Inr [''aGVsbG8='']"
    "images_edit (example_env [''aGVsbG8='']) example_edit_request = Inr [''aGVsbG8='']"
    by simp_all
  have nf: "arg_output example_args \<noteq> Some ''file_output''"
    "arg_output (example_args\<lparr>arg_image := Some ''/in.png''\<rparr>) \<noteq> Some ''file_output''"
    using none by simp_all
  have s: "totalBase64Size (create_images (arg_output_format example_args) [''aGVsbG8='']) \<le> MAX_RESPONSE_SIZE"
    using small_total(1) none(2) by simp
  have 1: "create_image (example_env [''aGVsbG8='']) example_args
      = create_image (example_env [''aGVsbG8='']) (example_args\<lparr>arg_output := Some ''base64''\<rparr>)"
    using create none(1) by blast
  have "inline_delivery (create_images (arg_output_format example_args) [''aGVsbG8=''])
      (create_image (example_env [''aGVsbG8='']) example_args)"
    using create c g(1) nf(1) s by blast
  then have 2: "inline_delivery (create_images None [''aGVsbG8=''])
      (create_image (example_env [''aGVsbG8='']) example_args)"
    by (simp only: none(2))
  have 3: "inline_delivery (edit_images [''aGVsbG8=''])
      (edit_image (example_env [''aGVsbG8='']) (example_args\<lparr>arg_image := Some ''/in.png''\<rparr>))"
    using edit d g(2) nf(2) small_total(2) by blast
  from 1 2 3 show ?thesis by blast
qed

section \<open>File names\<close>

text \<open>
  C3, as the code has it. Output \<open>file_output\<close> is requested with the base path \<open>P\<close>, every
  write succeeds and the upstream service returns \<open>N\<close> payloads. Each payload is written
  to \<open>path.join\<close> of \<open>P\<close>'s directory and a name: \<open>P\<close>'s name, then \<open>_i\<close> (counting from 1)
  when \<open>N > 1\<close>, then the extension. For \<open>edit-image\<close> the extension is \<open>P\<close>'s own, or
  \<open>.png\<close> when \<open>P\<close> has none. For \<open>create-image\<close> it is always the extension of the
  output format (\<open>jpg\<close>, \<open>webp\<close> or \<open>png\<close>), whatever \<open>P\<close>'s extension is.
\<close>

theorem file_naming:
  assumes "\<forall>p. writeFile_ok e p"
    and "arg_output args = Some ''file_output''"
    and "arg_file_output args = Some P" and "P \<noteq> []"
  shows "(upstream_calls (edit_image e args) = [Edit q] \<and> images_edit e q = Inr data \<longrightarrow>
            map fst (written (edit_image e args))
              = map (\<lambda>k. path_join [path_dir (path_parse P),
                     path_name (path_parse P)
                     @ (if 1 < length data then ''_'' @ show_nat (k + 1) else [])
                     @ (if path_ext (path_parse P) \<noteq> [] then path_ext (path_parse P) else ''.png'')])
                  [0..<length data])
       \<and> (upstream_calls (create_image e args) = [Generate p] \<and> images_generate e p = Inr data \<longrightarrow>
            map fst (written (create_image e args))
              = map (\<lambda>k. path_join [path_dir (path_parse P),
                     path_name (path_parse P)
                     @ (if 1 < length data then ''_'' @ show_nat (k + 1) else [])
                     @ ''.'' @ (if arg_output_format args = Some ''jpeg'' then ''jpg''
                               else if arg_output_format args = Some ''webp'' then ''webp''
                               else ''png'')])
                  [0..<length data])"
proof -
  have edit: "map fst (written (edit_image e args))
      = map (\<lambda>k. path_join [path_dir (path_parse P),
             path_name (path_parse P)
             @ (if 1 < length data then ''_'' @ show_nat (k + 1) else [])
             @ (if path_ext (path_parse P) \<noteq> [] then path_ext (path_parse P) else ''.png'')])
          [0..<length data]"
    if sent: "upstream_calls (edit_image e args) = [Edit q]" and answer: "images_edit e q = Inr data"
  proof -
    have eq: "edit_image e args = edit_route e [Edit q] (with_defaults args) (edit_images data)"
      using sent answer by (rule edit_image_sent)
    have "edit_route e [Edit q] (with_defaults args) (edit_images data)
        = deliver e [Edit q] ''file_output'' (edit_filePath P (length data)) (edit_images data)"
      using assms(2,3,4) by (simp add: edit_route_def effectiveOutput_def edit_basePath_def edit_images_def)
    then show ?thesis
      unfolding eq using written_deliver_file[OF assms(1)]
      by (simp add: edit_filePath_def Let_def nth_edit_images edit_images_def)
  qed
  have create: "map fst (written (create_image e args))
      = map (\<lambda>k. path_join [path_dir (path_parse P),
             path_name (path_parse P)
             @ (if 1 < length data then ''_'' @ show_nat (k + 1) else [])
             @ ''.'' @ (if arg_output_format args = Some ''jpeg'' then ''jpg''
                       else if arg_output_format args = Some ''webp'' then ''webp''
                       else ''png'')])
          [0..<length data]"
    if sent: "upstream_calls (create_image e args) = [Generate p]" and answer: "images_generate e p = Inr data"
  proof -
    have eq: "create_image e args = create_route e [Generate p] (with_defaults args)
        (create_images (arg_output_format args) data)"
      using sent answer by (rule create_image_sent)
    have "create_route e [Generate p] (with_defaults args) (create_images (arg_output_format args) data)
        = deliver e [Generate p] ''file_output'' (create_filePath P (length data))
            (create_images (arg_output_format args) data)"
      using assms(2,3,4) by (simp add: create_route_def effectiveOutput_def create_basePath_def create_images_def)
    then show ?thesis
      unfolding eq using written_deliver_file[OF assms(1)]
      by (simp add: create_filePath_def Let_def create_images_def)
  qed
  from edit create show ?thesis by blast
qed

text \<open>The base path \<open>/tmp/x.png\<close> with three \<open>png\<close> payloads gives \<open>/tmp/x_1.png\<close>,
  \<open>/tmp/x_2.png\<close>, \<open>/tmp/x_3.png\<close>, in order, for both tools.\<close>

theorem file_naming_witness:
  "map fst (written (edit_image (example_env [''aGVsbG8='', ''aGVsbG8='', ''aGVsbG8=''])
      (example_args\<lparr>arg_image := Some ''/in.png'', arg_output := Some ''file_output'',
                     arg_file_output := Some ''/tmp/x.png''\<rparr>)))
     = [''/tmp/x_1.png'', ''/tmp/x_2.png'', ''/tmp/x_3.png'']
   \<and> map fst (written (create_image (example_env [''aGVsbG8='', ''aGVsbG8='', ''aGVsbG8=''])
      (example_args\<lparr>arg_output := Some ''file_output'', arg_file_output := Some ''/tmp/x.png''\<rparr>)))
     = [''/tmp/x_1.png'', ''/tmp/x_2.png'', ''/tmp/x_3.png'']"
proof -
  let ?data = "[''aGVsbG8='', ''aGVsbG8='', ''aGVsbG8='']"
  let ?eargs = "example_args\<lparr>arg_image := Some ''/in.png'', arg_output := Some ''file_output'',
                     arg_file_output := Some ''/tmp/x.png''\<rparr>"
  let ?cargs = "example_args\<lparr>arg_output := Some ''file_output'', arg_file_output := Some ''/tmp/x.png''\<rparr>"
  have ok: "\<forall>p. writeFile_ok (example_env ?data) p" by simp
  have a: "arg_output ?eargs = Some ''file_output''" "arg_file_output ?eargs = Some ''/tmp/x.png''"
    "arg_output ?cargs = Some ''file_output''" "arg_file_output ?cargs = Some ''/tmp/x.png''"
    "arg_output_format ?cargs = None" "''/tmp/x.png'' \<noteq> []"
    by (simp_all add: example_args_def)
  have d: "upstream_calls (edit_image (example_env ?data) ?eargs) = [Edit example_edit_request]"
    using example_edit_sent[of "Some ''file_output''" "Some ''/tmp/x.png''" ?data]
    by (simp add: example_args_def)
  have c: "upstream_calls (create_image (example_env ?data) ?cargs) = [Generate (example_request None)]"
    using example_create_sent[of "Some ''file_output''" "Some ''/tmp/x.png''" None ?data]
    by (simp add: example_args_def)
  have g: "images_generate (example_env ?data) (example_request None) = Inr ?data"
    "images_edit (example_env ?data) example_edit_request = Inr ?data"
    by simp_all
  note edit = file_naming[OF ok a(1,2,6), of example_edit_request ?data "example_request None"]
  note create = file_naming[OF ok a(3,4,6), of example_edit_request ?data "example_request None"]
  have 1: "map fst (written (edit_image (example_env ?data) ?eargs))
      = [''/tmp/x_1.png'', ''/tmp/x_2.png'', ''/tmp/x_3.png'']"
    using edit d g(2) by (simp add: tmp_x_png tmp_joins show_suc)
  have 2: "map fst (written (create_image (example_env ?data) ?cargs))
      = [''/tmp/x_1.png'', ''/tmp/x_2.png'', ''/tmp/x_3.png'']"
    using create c g(1) a(5) by (simp add: tmp_x_png tmp_joins show_suc)
  from 1 2 show ?thesis by blast
qed

text \<open>
  C3 as stated fails for \<open>create-image\<close>: the base path \<open>/tmp/x.png\<close> has an extension, and
  one payload of the output format \<open>jpeg\<close> is written to \<open>/tmp/x.jpg\<close>.
\<close>

theorem create_image_replaces_extension:
  "path_ext (path_parse ''/tmp/x.png'') = ''.png''
   \<and> map fst (written (create_image (example_env [''aGVsbG8=''])
        (example_args\<lparr>arg_output := Some ''file_output'', arg_file_output := Some ''/tmp/x.png'',
                       arg_output_format := Some ''jpeg''\<rparr>)))
     = [''/tmp/x.jpg'']"
proof -
  let ?args = "example_args\<lparr>arg_output := Some ''file_output'', arg_file_output := Some ''/tmp/x.png'',
                       arg_output_format := Some ''jpeg''\<rparr>"
  let ?e = "example_env [''aGVsbG8='']"
  have sent: "upstream_calls (create_image ?e ?args) = [Generate (example_request (Some ''jpeg''))]"
    using example_create_sent[of "Some ''file_output''" "Some ''/tmp/x.png''" "Some ''jpeg''" "[''aGVsbG8='']"]
    by (simp add: example_args_def)
  have a: "arg_output_format ?args = Some ''jpeg''" "arg_file_output ?args = Some ''/tmp/x.png''"
    by (simp_all add: example_args_def)
  have "create_image ?e ?args = create_route ?e [Generate (example_request (Some ''jpeg''))] (with_defaults ?args)
      (create_images (arg_output_format ?args) [''aGVsbG8=''])"
    using sent by (rule create_image_sent) simp
  also have "\<dots> = deliver ?e [Generate (example_request (Some ''jpeg''))] ''file_output''
      (create_filePath ''/tmp/x.png'' 1) [\<lparr>b64 = ''aGVsbG8='', mimeType = ''image/jpeg'', ext = ''jpg''\<rparr>]"
    by (simp add: create_route_def effectiveOutput_def create_basePath_def create_images_def a)
  finally have "map fst (written (create_image ?e ?args))
      = [create_filePath ''/tmp/x.png'' 1 0 \<lparr>b64 = ''aGVsbG8='', mimeType = ''image/jpeg'', ext = ''jpg''\<rparr>]"
    by (simp add: written_deliver_file)
  then have "map fst (written (create_image ?e ?args)) = [''/tmp/x.jpg'']"
    by (simp add: create_filePath_def tmp_x_png tmp_joins)
  then show ?thesis by (simp add: tmp_x_png)
qed

section \<open>The image input resolver\<close>

lemma base64_text_no_colon:
  assumes "list_all is_base64_text s"
  shows "CHR '':'' \<notin> set s"
proof
  assume "CHR '':'' \<in> set s"
  with assms have "is_base64_text CHR '':''" by (auto simp: list_all_iff)
  then show False by (simp add: is_base64_text_def is_alpha_def is_upper_def is_lower_def is_digit_def code_def)
qed

lemma encoded_not_drive_path: "\<not> drive_letter_path (base64_encode B)"
proof
  assume d: "drive_letter_path (base64_encode B)"
  then obtain a c rest where "base64_encode B = a # CHR '':'' # c # rest"
    by (auto simp: drive_letter_path_def split: list.splits)
  then have "CHR '':'' \<in> set (base64_encode B)" by simp
  moreover have "list_all is_base64_text (base64_encode B)"
    using base64_encode_chars[of B] by (auto simp: list_all_iff)
  ultimately show False using base64_text_no_colon by blast
qed

lemma encoded_not_data_url: "\<not> startsWith (base64_encode B) ''data:image/''"
proof
  assume "startsWith (base64_encode B) ''data:image/''"
  then have "take (length ''data:image/'') (base64_encode B) = ''data:image/''"
    by (simp only: startsWith_def)
  then have "CHR '':'' \<in> set (take (length ''data:image/'') (base64_encode B))"
    by (simp only:) simp
  then have "CHR '':'' \<in> set (base64_encode B)" by (rule in_set_takeD)
  moreover have "list_all is_base64_text (base64_encode B)"
    using base64_encode_chars[of B] by (auto simp: list_all_iff)
  ultimately show False using base64_text_no_colon by blast
qed

lemma split_mime: "CHR ''/'' \<notin> set subtype \<Longrightarrow> split_on CHR ''/'' (''image/'' @ subtype) = [''image'', subtype]"
  by (simp add: split_on_absent)

lemma word_chars:
  assumes "list_all is_word subtype"
  shows "CHR ''/'' \<notin> set subtype" and "takeWhile is_word (subtype @ CHR '';'' # rest) = subtype"
    and "dropWhile is_word (subtype @ CHR '';'' # rest) = CHR '';'' # rest"
proof -
  have semi: "\<not> is_word CHR '';''" and slash: "\<not> is_word CHR ''/''"
    by (simp_all add: is_word_def is_alpha_def is_upper_def is_lower_def is_digit_def code_def)
  show "CHR ''/'' \<notin> set subtype" using assms slash by (auto simp: list_all_iff)
  have all: "\<And>c. c \<in> set subtype \<Longrightarrow> is_word c" using assms by (auto simp: list_all_iff)
  show "takeWhile is_word (subtype @ CHR '';'' # rest) = subtype"
    using all semi by (simp add: takeWhile_append2)
  show "dropWhile is_word (subtype @ CHR '';'' # rest) = CHR '';'' # rest"
    using all semi by (simp add: dropWhile_append2)
qed

lemma inputToFile_raw:
  assumes "B \<noteq> []" and "\<not> startsWith (base64_encode B) ''/''"
  shows "inputToFile e (base64_encode B) idx
           = Inr \<lparr>upload_data = B, upload_name = Some (''input_'' @ show_nat idx @ ''.png''),
                  upload_type = ''image/png''\<rparr>"
proof -
  have "\<not> absolutePathCheck (Some (base64_encode B))"
    using assms encoded_not_drive_path[of B] by (simp add: absolutePathCheck_def base64_encode_Nil_iff)
  then show ?thesis
    using encoded_not_data_url[of B]
    by (simp add: inputToFile_def base64_decode_encode)
qed

lemma inputToFile_data_url:
  assumes "subtype \<noteq> []" and "list_all is_word subtype"
  shows "inputToFile e (''data:image/'' @ subtype @ '';base64,'' @ base64_encode B) idx
           = Inr \<lparr>upload_data = B, upload_name = Some (''input_'' @ show_nat idx @ ''.'' @ subtype),
                  upload_type = ''image/'' @ subtype\<rparr>"
proof -
  let ?input = "''data:image/'' @ subtype @ '';base64,'' @ base64_encode B"
  have abs: "\<not> absolutePathCheck (Some ?input)"
    by (simp add: absolutePathCheck_def startsWith_def drive_letter_path_def)
  have start: "startsWith ?input ''data:image/''"
    by (simp add: startsWith_def)
  have noterm: "\<not> list_ex is_line_terminator (base64_encode B)"
    using base64_encode_chars[of B] by (auto simp: list_all_iff list_ex_iff)
  have m: "match_data_url ?input = Some (''image/'' @ subtype, base64_encode B)"
    using assms(1) noterm word_chars(2,3)[OF assms(2), of "''base64,'' @ base64_encode B"]
    by (simp add: match_data_url_def startsWith_def)
  have ne: "''image/'' @ subtype \<noteq> []" by simp
  show ?thesis
    using abs start m assms(1) split_mime[OF word_chars(1)[OF assms(2)]]
    by (simp add: inputToFile_def base64_decode_encode del: append.simps)
qed

text \<open>
  Where the round trip holds. The base64 text of a non-empty buffer whose first byte is below
  \<open>0xFC\<close> resolves to the buffer, with type \<open>image/png\<close>. A data URL with a subtype of
  word characters around the base64 text of any buffer resolves to the buffer, with type
  \<open>image/\<close> and the subtype.
\<close>

theorem inputToFile_round_trip:
  "(B \<noteq> [] \<and> hd B < 252 \<longrightarrow>
      inputToFile e (base64_encode B) idx
        = Inr \<lparr>upload_data = B, upload_name = Some (''input_'' @ show_nat idx @ ''.png''),
               upload_type = ''image/png''\<rparr>)
   \<and> (subtype \<noteq> [] \<and> list_all is_word subtype \<longrightarrow>
      inputToFile e (''data:image/'' @ subtype @ '';base64,'' @ base64_encode B) idx
        = Inr \<lparr>upload_data = B, upload_name = Some (''input_'' @ show_nat idx @ ''.'' @ subtype),
               upload_type = ''image/'' @ subtype\<rparr>)"
  using inputToFile_raw[of B e idx] inputToFile_data_url[of subtype e B idx]
    encoded_starts_with_slash[of B]
  by auto

theorem inputToFile_round_trip_witness:
  "inputToFile (example_env []) (base64_encode [104, 101, 108, 108, 111]) 0
     = Inr \<lparr>upload_data = [104, 101, 108, 108, 111], upload_name = Some ''input_0.png'',
            upload_type = ''image/png''\<rparr>
   \<and> inputToFile (example_env []) (''data:image/jpeg;base64,'' @ base64_encode [255, 216, 255]) 1
     = Inr \<lparr>upload_data = [255, 216, 255], upload_name = Some ''input_1.jpeg'',
            upload_type = ''image/jpeg''\<rparr>"
proof -
  have a: "[104, 101, 108, 108, 111] \<noteq> ([] :: byte list)" "hd [104, 101, 108, 108, 111] < (252 :: byte)"
    by simp_all
  have b: "''jpeg'' \<noteq> []" "list_all is_word ''jpeg''"
    by (simp_all add: string_defs)
  have n: "show_nat 0 = ''0''" "show_nat 1 = ''1''"
    by (simp_all add: show_nat.simps digit_char_def)
  show ?thesis
    using a b
      inputToFile_round_trip[of "[104, 101, 108, 108, 111]" "example_env []" 0 "''jpeg''"]
      inputToFile_round_trip[of "[255, 216, 255]" "example_env []" 1 "''jpeg''"]
    by (simp add: n show_suc)
qed

text \<open>
  C9 fails on the code for a buffer that starts like a JPEG file: the base64 text of
  \<open>FF D8 FF\<close> is \<open>/9j/\<close>, the path check accepts it, and the resolver reads the file
  of that name instead of decoding the text.
\<close>

theorem inputToFile_reads_jpeg_as_path:
  "base64_encode [0xFF, 0xD8, 0xFF] = ''/9j/''
   \<and> inputToFile (example_env []) (base64_encode [0xFF, 0xD8, 0xFF]) 0 = Inl (FilesystemFailure ''/9j/'')"
proof -
  have enc: "base64_encode [0xFF, 0xD8, 0xFF] = ''/9j/''"
    by code_simp
  have "inputToFile (example_env []) ''/9j/'' 0 = Inl (FilesystemFailure ''/9j/'')"
    by (simp add: inputToFile_def absolutePathCheck_def startsWith_def example_env_def)
  with enc show ?thesis by simp
qed

end
